theory Spec2Isabelle
  imports Main "HOL-Library.Sublist"
begin

section \<open>The Nookipedia client: request engine and error classes\<close>

text \<open>
  The development embeds \<^verbatim>\<open>NookipediaApi.request\<close> and the error classes of the
  TypeScript client. The repository holds several revisions of \<^verbatim>\<open>index.ts\<close>. The
  definitions follow the revision with \<^verbatim>\<open>NOOKIPEDIA_API_VERSION = '1.6.0'\<close>
  (\<^verbatim>\<open>unnamed/part_002\<close>, lines 1-144), which declares all four specific error
  classes. The revision \<^verbatim>\<open>src/index.ts\<close> (version constant \<^verbatim>\<open>'1.0.0'\<close>) has the same
  request, line for line, but for the status switch, which has no case for 400, and it
  has no class \<^verbatim>\<open>NookipediaError400\<close>; its switch (lines 114-126) is embedded beside
  the other as \<open>throw_for_status_1_0_0\<close>. Where a heading names lines of
  \<^verbatim>\<open>part_002\<close>, the same text is in \<^verbatim>\<open>src/index.ts\<close>: the error classes at lines
  23-50, the client at 52-62, the request at 64-127 (path 80-85, URL 86, query 87-102,
  headers 103-105, fetch 106-109, decoding and outcome 110-126). The earliest revision
  (\<^verbatim>\<open>unnamed/part_001\<close>, lines 1-111), which returns the decoded body whatever the
  status, is not embedded.

  Conventions of the embedding:
  \<^item> a JavaScript string is the list of the bytes of its UTF-8 encoding;
  \<^item> a status, a code and a number of a JSON body are integers, \<^verbatim>\<open>undefined\<close> is
    \<open>None\<close>; a number of the query is any value of the type \<^verbatim>\<open>number\<close>, held as the
    decimal digits and the exponent from which the language prints it (\<open>number\<close>);
  \<^item> an object is the list of its own properties in enumeration order, so
    \<^verbatim>\<open>Object.entries\<close> is the list itself and its keys are distinct;
  \<^item> a rejected promise or a thrown exception is the \<open>Inl\<close> branch of a sum;
  \<^item> the host objects \<^verbatim>\<open>URLSearchParams\<close> and \<^verbatim>\<open>Headers\<close> are lists of
    name-value pairs with the operations of the URL and Fetch standards; \<^verbatim>\<open>Headers\<close>
    converts its arguments to byte strings, strips the white space around a value and
    throws a TypeError on a name or a value that is not legal;
  \<^item> the constructor \<^verbatim>\<open>new URL(path, base)\<close> and \<^verbatim>\<open>fetch\<close> are parameters of the
    model (the record \<open>platform\<close>); \<open>URL_standard\<close> has the constructor as the URL
    standard describes it, for a path that begins with a slash and a base of the web.
\<close>

subsection \<open>JSON values, exceptions\<close>

datatype json =
    JNull
  | JBool bool
  | JNumber int
  | JString string
  | JArray "json list"
  | JObject "(string \<times> json) list"

text \<open>
  \<open>TypeError\<close> is the exception of the language itself (a property read on
  \<^verbatim>\<open>null\<close>, a failed conversion to a primitive). \<open>HostException\<close> is any exception
  raised by the platform: a rejected \<^verbatim>\<open>fetch\<close>, a body that is not JSON, an invalid
  URL.
\<close>

datatype exn = TypeError | HostException string

subsection \<open>Error classes (part_002, lines 26-65)\<close>

datatype error_class =
    NookipediaError
  | NookipediaError400
  | NookipediaError401
  | NookipediaError404
  | NookipediaError500

record nookipedia_error =
  cls :: error_class
  body :: json
  code :: "int option"

text \<open>
  \<^verbatim>\<open>body.title\<close>: reading a property of \<^verbatim>\<open>null\<close> throws; a primitive or an array
  has no property \<^verbatim>\<open>title\<close>; an object yields the property or \<^verbatim>\<open>undefined\<close>.
\<close>

fun get_title :: "json \<Rightarrow> exn + json option" where
  "get_title JNull = Inl TypeError"
| "get_title (JObject props) = Inr (map_of props ''title'')"
| "get_title _ = Inr None"

text \<open>
  The constructor of \<^verbatim>\<open>Error\<close> converts a message that is not \<^verbatim>\<open>undefined\<close> with
  \<^verbatim>\<open>ToString\<close>. On a value that came out of \<^verbatim>\<open>JSON.parse\<close> the conversion throws
  exactly when it reaches an object with an own property \<^verbatim>\<open>toString\<close> (which is not
  callable, and the inherited \<^verbatim>\<open>valueOf\<close> returns the object itself); an array is
  joined, converting each element that is not \<^verbatim>\<open>null\<close>. The message text itself is
  not part of the model.
\<close>

fun ToString_throws :: "json \<Rightarrow> bool" where
  "ToString_throws (JObject props) = (''toString'' \<in> fst ` set props)"
| "ToString_throws (JArray xs) = (\<exists>x \<in> set xs. ToString_throws x)"
| "ToString_throws _ = False"

text \<open>
  \<^verbatim>\<open>constructor(public body: ErrorBody, public code?: number) { super(body.title); }\<close>
\<close>

definition new_NookipediaError :: "json \<Rightarrow> int option \<Rightarrow> exn + nookipedia_error" where
  "new_NookipediaError b c =
     (case get_title b of
        Inl e \<Rightarrow> Inl e
      | Inr None \<Rightarrow> Inr \<lparr>cls = NookipediaError, body = b, code = c\<rparr>
      | Inr (Some t) \<Rightarrow>
          if ToString_throws t then Inl TypeError
          else Inr \<lparr>cls = NookipediaError, body = b, code = c\<rparr>)"

text \<open>
  A subclass calls \<^verbatim>\<open>super(body)\<close>, leaving the code parameter \<^verbatim>\<open>undefined\<close>, stores
  its own \<^verbatim>\<open>body\<close> and initialises the field \<^verbatim>\<open>code\<close> with its constant.
\<close>

definition new_subclass :: "error_class \<Rightarrow> int \<Rightarrow> json \<Rightarrow> exn + nookipedia_error" where
  "new_subclass k n b =
     (case new_NookipediaError b None of
        Inl e \<Rightarrow> Inl e
      | Inr e \<Rightarrow> Inr (e\<lparr>cls := k, body := b, code := Some n\<rparr>))"

definition new_NookipediaError400 :: "json \<Rightarrow> exn + nookipedia_error" where
  "new_NookipediaError400 = new_subclass NookipediaError400 400"

definition new_NookipediaError401 :: "json \<Rightarrow> exn + nookipedia_error" where
  "new_NookipediaError401 = new_subclass NookipediaError401 401"

definition new_NookipediaError404 :: "json \<Rightarrow> exn + nookipedia_error" where
  "new_NookipediaError404 = new_subclass NookipediaError404 404"

definition new_NookipediaError500 :: "json \<Rightarrow> exn + nookipedia_error" where
  "new_NookipediaError500 = new_subclass NookipediaError500 500"

text \<open>
  The bodies on which the constructors return: the body is not \<^verbatim>\<open>null\<close>, and its
  title, when it has one, converts to a string.
\<close>

definition message_ok :: "json \<Rightarrow> bool" where
  "message_ok b =
     (case get_title b of
        Inl e \<Rightarrow> False
      | Inr None \<Rightarrow> True
      | Inr (Some t) \<Rightarrow> \<not> ToString_throws t)"

subsection \<open>The client (part_002, lines 67-77)\<close>

definition NOOKIPEDIA_API_VERSION :: string where
  "NOOKIPEDIA_API_VERSION = ''1.6.0''"

record NookipediaApi =
  apiKey :: string
  apiUrl :: string

definition new_NookipediaApi :: "string \<Rightarrow> string option \<Rightarrow> NookipediaApi" where
  "new_NookipediaApi key url =
     \<lparr>apiKey = key,
      apiUrl = (case url of None \<Rightarrow> ''https://api.nookipedia.com/'' | Some u \<Rightarrow> u)\<rparr>"

subsection \<open>Path resolution (part_002, lines 95-100)\<close>

text \<open>
  \<^verbatim>\<open>String.prototype.replace\<close> with a string pattern replaces the first occurrence of
  the pattern. \<open>split_first pat s\<close> is the text before and after that occurrence.
\<close>

fun split_first :: "string \<Rightarrow> string \<Rightarrow> (string \<times> string) option" where
  "split_first pat [] = (if pat = [] then Some ([], []) else None)"
| "split_first pat (c # s) =
     (if prefix pat (c # s) then Some ([], drop (length pat) (c # s))
      else (case split_first pat s of
              None \<Rightarrow> None
            | Some (b, a) \<Rightarrow> Some (c # b, a)))"

text \<open>
  The replacement is a string, so the language expands it with \<^verbatim>\<open>GetSubstitution\<close>:
  \<^verbatim>\<open>$$\<close> is a dollar sign, \<^verbatim>\<open>$&\<close> the matched text, \<^verbatim>\<open>$`\<close> the text before
  the match and \<^verbatim>\<open>$'\<close> the text after it. With a string pattern there are no
  captures, so every other use of the dollar sign stands for itself.
\<close>

fun GetSubstitution :: "string \<Rightarrow> string \<Rightarrow> string \<Rightarrow> string \<Rightarrow> string" where
  "GetSubstitution m b a [] = []"
| "GetSubstitution m b a [c] = [c]"
| "GetSubstitution m b a (c # d # r) =
     (if c = CHR ''$'' then
        (if d = CHR ''$'' then CHR ''$'' # GetSubstitution m b a r
         else if d = CHR ''&'' then m @ GetSubstitution m b a r
         else if d = CHR 0x60 then b @ GetSubstitution m b a r
         else if d = CHR 0x27 then a @ GetSubstitution m b a r
         else c # GetSubstitution m b a (d # r))
      else c # GetSubstitution m b a (d # r))"

definition replace :: "string \<Rightarrow> string \<Rightarrow> string \<Rightarrow> string" where
  "replace s pat repl =
     (case split_first pat s of
        None \<Rightarrow> s
      | Some (b, a) \<Rightarrow> b @ GetSubstitution pat b a repl @ a)"

text \<open>
  \<^verbatim>\<open>Object.entries(replacePath ?? {}).forEach(([key, value]) =>
      { finalPath = finalPath.replace(`{${key}}`, value); })\<close>
\<close>

definition placeholder :: "string \<Rightarrow> string" where
  "placeholder key = CHR ''{'' # key @ ''}''"

definition finalPath :: "string \<Rightarrow> (string \<times> string) list option \<Rightarrow> string" where
  "finalPath path replacePath =
     foldl (\<lambda>fp (key, value). replace fp (placeholder key) value) path
       (case replacePath of None \<Rightarrow> [] | Some entries \<Rightarrow> entries)"

text \<open>
  Whether a replacement string holds one of the four patterns that
  \<open>GetSubstitution\<close> expands.
\<close>

fun special_pattern :: "string \<Rightarrow> bool" where
  "special_pattern [] = False"
| "special_pattern [c] = False"
| "special_pattern (c # d # r) =
     (if c = CHR ''$'' \<and> (d = CHR ''$'' \<or> d = CHR ''&'' \<or> d = CHR 0x60 \<or> d = CHR 0x27)
      then True else special_pattern (d # r))"

text \<open>
  The path templates of the catalogue, such as \<^verbatim>\<open>'/nh/bugs/{bug}'\<close>: literal text
  and placeholders. \<open>render\<close> is the template as the string that the source holds,
  \<open>holes\<close> the names of its placeholders, and \<open>fill\<close> the template with every
  placeholder that the mapping knows replaced by its value. A template is well formed
  when the only braces of its string are those of its placeholders and no placeholder
  occurs twice.
\<close>

datatype part = Lit string | Hole string

fun render :: "part list \<Rightarrow> string" where
  "render [] = []"
| "render (Lit s # t) = s @ render t"
| "render (Hole n # t) = placeholder n @ render t"

fun holes :: "part list \<Rightarrow> string list" where
  "holes [] = []"
| "holes (Lit s # t) = holes t"
| "holes (Hole n # t) = n # holes t"

fun fill :: "part list \<Rightarrow> (string \<Rightarrow> string option) \<Rightarrow> string" where
  "fill [] m = []"
| "fill (Lit s # t) m = s @ fill t m"
| "fill (Hole n # t) m = (case m n of None \<Rightarrow> placeholder n | Some v \<Rightarrow> v) @ fill t m"

text \<open>\<open>put k v t\<close> is the template with its first placeholder \<open>k\<close> replaced by the text \<open>v\<close>.\<close>

fun put :: "string \<Rightarrow> string \<Rightarrow> part list \<Rightarrow> part list" where
  "put k v [] = []"
| "put k v (Lit s # t) = Lit s # put k v t"
| "put k v (Hole n # t) = (if n = k then Lit v # t else Hole n # put k v t)"

definition brace_free :: "string \<Rightarrow> bool" where
  "brace_free s \<longleftrightarrow> CHR ''{'' \<notin> set s \<and> CHR ''}'' \<notin> set s"

fun plain :: "part \<Rightarrow> bool" where
  "plain (Lit s) = brace_free s"
| "plain (Hole n) = brace_free n"

definition well_formed :: "part list \<Rightarrow> bool" where
  "well_formed t \<longleftrightarrow> list_all plain t \<and> distinct (holes t)"

subsection \<open>Query encoding (part_002, lines 101-117)\<close>

text \<open>
  A value of the type \<^verbatim>\<open>number\<close>: not a number, zero (of either sign), an infinity
  (\<open>True\<close> for the negative one), or a finite number other than zero. The conversion of
  a finite number to a string starts from the integers \<open>s\<close> and \<open>n\<close> with
  \<open>x = s \<times> 10\<^bsup>n - k\<^esup>\<close>, where \<open>s\<close> has \<open>k\<close> digits and is not divisible by ten
  (the shortest digits that read back as \<open>x\<close>); \<open>Finite neg s n\<close> holds the number
  by its sign and these two integers. So 20 is \<open>Finite False 2 2\<close>, one half is
  \<open>Finite False 5 0\<close> and \<open>10\<^sup>2\<^sup>1\<close> is \<open>Finite False 1 22\<close>. Every number has
  such a value; a value whose \<open>s\<close> is zero or divisible by ten stands for no number.
\<close>

datatype number = NaN | Zero | Infinite bool | Finite bool nat int

text \<open>A query value is a string or a number, or an array of them.\<close>

datatype scalar = Str string | Num number

datatype query_value = Single scalar | Multiple "scalar list"

fun digits :: "nat \<Rightarrow> string" where
  "digits n =
     (if n < 10 then [''0123456789'' ! n]
      else digits (n div 10) @ [''0123456789'' ! (n mod 10)])"

text \<open>
  \<^verbatim>\<open>Number.prototype.toString\<close> with no radix: the digits followed by zeros when the
  number is an integer below \<open>10\<^sup>2\<^sup>1\<close>, a decimal point inside or in front of the
  digits when \<open>-6 < n \<le> 21\<close>, and the exponent form otherwise.
\<close>

fun Number_toString :: "number \<Rightarrow> string" where
  "Number_toString NaN = ''NaN''"
| "Number_toString Zero = ''0''"
| "Number_toString (Infinite neg) = (if neg then ''-Infinity'' else ''Infinity'')"
| "Number_toString (Finite neg s n) =
     (let ds = digits s;
          k = int (length ds);
          e = n - 1;
          exponent = CHR ''e'' # (if e < 0 then CHR ''-'' else CHR ''+'') # digits (nat \<bar>e\<bar>);
          unsigned =
            (if k \<le> n \<and> n \<le> 21 then ds @ replicate (nat (n - k)) (CHR ''0'')
             else if 0 < n \<and> n \<le> 21 then take (nat n) ds @ ''.'' @ drop (nat n) ds
             else if - 6 < n \<and> n \<le> 0 then ''0.'' @ replicate (nat (- n)) (CHR ''0'') @ ds
             else if k = 1 then ds @ exponent
             else take 1 ds @ ''.'' @ drop 1 ds @ exponent)
      in if neg then CHR ''-'' # unsigned else unsigned)"

text \<open>\<^verbatim>\<open>value.toString()\<close> on a string, which is the string itself, or on a number.\<close>

fun toString :: "scalar \<Rightarrow> string" where
  "toString (Str s) = s"
| "toString (Num x) = Number_toString x"

text \<open>
  The list of a \<^verbatim>\<open>URLSearchParams\<close> object. \<^verbatim>\<open>append\<close> adds a pair at the end;
  \<^verbatim>\<open>set\<close> gives the first pair of that name the new value and removes the others, or
  appends when there is none.
\<close>

type_synonym pairs = "(string \<times> string) list"

fun set_existing :: "string \<Rightarrow> string \<Rightarrow> pairs \<Rightarrow> pairs" where
  "set_existing name v [] = []"
| "set_existing name v (p # ps) =
     (if fst p = name then (fst p, v) # filter (\<lambda>q. fst q \<noteq> name) ps
      else p # set_existing name v ps)"

definition set_pair :: "pairs \<Rightarrow> string \<Rightarrow> string \<Rightarrow> pairs" where
  "set_pair ps name v =
     (if name \<in> fst ` set ps then set_existing name v ps else ps @ [(name, v)])"

text \<open>
  The \<^verbatim>\<open>application/x-www-form-urlencoded\<close> serialiser that writes the list back into
  the URL: a space becomes \<^verbatim>\<open>+\<close>, the bytes \<^verbatim>\<open>* - . _\<close>, digits and letters stay,
  every other byte is \<^verbatim>\<open>%\<close> and two upper-case hexadecimal digits.
\<close>

definition unescaped :: "char \<Rightarrow> bool" where
  "unescaped c =
     (let n = (of_char c :: nat) in
      n = 0x2A \<or> n = 0x2D \<or> n = 0x2E \<or> (0x30 \<le> n \<and> n \<le> 0x39) \<or>
      (0x41 \<le> n \<and> n \<le> 0x5A) \<or> n = 0x5F \<or> (0x61 \<le> n \<and> n \<le> 0x7A))"

definition encode_byte :: "char \<Rightarrow> string" where
  "encode_byte c =
     (if c = CHR '' '' then ''+''
      else if unescaped c then [c]
      else [CHR ''%'', ''0123456789ABCDEF'' ! (of_char c div 16),
            ''0123456789ABCDEF'' ! (of_char c mod 16)])"

definition encode :: "string \<Rightarrow> string" where
  "encode s = concat (map encode_byte s)"

fun serialize :: "pairs \<Rightarrow> string" where
  "serialize [] = []"
| "serialize [(name, v)] = encode name @ ''='' @ encode v"
| "serialize ((name, v) # p # ps) = encode name @ ''='' @ encode v @ ''&'' @ serialize (p # ps)"

subsection \<open>URL objects\<close>

text \<open>
  A URL object: the serialisation of everything before the query, the query, the list
  of its \<^verbatim>\<open>searchParams\<close> object and the fragment. \<open>update_params\<close> is what a change of
  the list does to the URL: the query becomes the serialised list, or null when that is
  empty. \<open>href\<close> is the URL serialiser.
\<close>

record URL =
  before_query :: string
  url_query :: "string option"
  searchParams :: pairs
  fragment :: "string option"

definition update_params :: "URL \<Rightarrow> pairs \<Rightarrow> URL" where
  "update_params url ps =
     url\<lparr>searchParams := ps,
         url_query := (if serialize ps = [] then None else Some (serialize ps))\<rparr>"

definition href :: "URL \<Rightarrow> string" where
  "href url =
     before_query url
     @ (case url_query url of None \<Rightarrow> [] | Some q \<Rightarrow> CHR ''?'' # q)
     @ (case fragment url of None \<Rightarrow> [] | Some f \<Rightarrow> CHR ''#'' # f)"

text \<open>
  \<^verbatim>\<open>url.searchParams.append(name, value)\<close> and \<^verbatim>\<open>url.searchParams.set(name, value)\<close>:
  the list changes and the URL is updated from it.
\<close>

definition searchParams_append :: "URL \<Rightarrow> string \<Rightarrow> string \<Rightarrow> URL" where
  "searchParams_append url name v = update_params url (searchParams url @ [(name, v)])"

definition searchParams_set :: "URL \<Rightarrow> string \<Rightarrow> string \<Rightarrow> URL" where
  "searchParams_set url name v = update_params url (set_pair (searchParams url) name v)"

text \<open>
  \<^verbatim>\<open>if (Array.isArray(value)) { value.forEach((val) => append(key, val.toString())) }
  else { set(key, value.toString()) }\<close>
\<close>

fun add_entry :: "URL \<Rightarrow> string \<times> query_value \<Rightarrow> URL" where
  "add_entry url (key, Multiple vals) =
     foldl (\<lambda>u val. searchParams_append u key (toString val)) url vals"
| "add_entry url (key, Single val) = searchParams_set url key (toString val)"

text \<open>The query of a URL agrees with its list: so it is after every change of the list.\<close>

definition in_step :: "URL \<Rightarrow> bool" where
  "in_step url \<longleftrightarrow>
     url_query url = (if serialize (searchParams url) = [] then None
                      else Some (serialize (searchParams url)))"

subsection \<open>Header composition (part_002, lines 118-120)\<close>

definition lower_char :: "char \<Rightarrow> char" where
  "lower_char c =
     (case map_of (zip ''ABCDEFGHIJKLMNOPQRSTUVWXYZ'' ''abcdefghijklmnopqrstuvwxyz'') c of
        None \<Rightarrow> c
      | Some d \<Rightarrow> d)"

definition lower :: "string \<Rightarrow> string" where
  "lower s = map lower_char s"

text \<open>
  The methods of \<^verbatim>\<open>Headers\<close> take their arguments as byte strings: every character
  of the argument must be below U+0100 and becomes one byte, and any other character
  throws a TypeError. On the UTF-8 bytes of the argument: a byte below 0x80 is itself,
  the two bytes of a character from U+0080 to U+00FF (0xC2 or 0xC3 and a continuation
  byte) become the one byte of its code, and anything else is a character from U+0100
  on.
\<close>

definition ascii :: "char \<Rightarrow> bool" where
  "ascii c \<longleftrightarrow> (of_char c :: nat) < 0x80"

definition continuation :: "char \<Rightarrow> bool" where
  "continuation c \<longleftrightarrow> 0x80 \<le> (of_char c :: nat) \<and> (of_char c :: nat) < 0xC0"

fun ByteString :: "string \<Rightarrow> exn + string" where
  "ByteString [] = Inr []"
| "ByteString [c] = (if ascii c then Inr [c] else Inl TypeError)"
| "ByteString (c # d # s) =
     (if ascii c then
        (case ByteString (d # s) of Inl e \<Rightarrow> Inl e | Inr bytes \<Rightarrow> Inr (c # bytes))
      else if c = CHR 0xC2 \<and> continuation d then
        (case ByteString s of Inl e \<Rightarrow> Inl e | Inr bytes \<Rightarrow> Inr (d # bytes))
      else if c = CHR 0xC3 \<and> continuation d then
        (case ByteString s of
           Inl e \<Rightarrow> Inl e
         | Inr bytes \<Rightarrow> Inr (char_of (of_char d + (0x40 :: nat)) # bytes))
      else Inl TypeError)"

text \<open>
  A value is normalised: the HTTP white space bytes (tab, line feed, carriage return,
  space) at its two ends are removed. A header name is a token: one or more letters,
  digits and the bytes \<^verbatim>\<open>! # $ % & ' * + - . ^ _ ` | ~\<close>. A header value has no tab or
  space at either end and holds no NUL, line feed or carriage return.
\<close>

definition HTTP_whitespace :: "char \<Rightarrow> bool" where
  "HTTP_whitespace c \<longleftrightarrow> (of_char c :: nat) \<in> {0x09, 0x0A, 0x0D, 0x20}"

definition normalize_value :: "string \<Rightarrow> string" where
  "normalize_value v = rev (dropWhile HTTP_whitespace (rev (dropWhile HTTP_whitespace v)))"

definition is_alpha :: "char \<Rightarrow> bool" where
  "is_alpha c \<longleftrightarrow> lower_char c \<in> set ''abcdefghijklmnopqrstuvwxyz''"

definition tchar :: "char \<Rightarrow> bool" where
  "tchar c \<longleftrightarrow>
     is_alpha c \<or> c \<in> set ''0123456789'' \<or>
     c \<in> set (''!#$%&*+-.^_|~'' @ [CHR 0x27, CHR 0x60])"

definition header_name :: "string \<Rightarrow> bool" where
  "header_name n \<longleftrightarrow> n \<noteq> [] \<and> list_all tchar n"

definition tab_or_space :: "char \<Rightarrow> bool" where
  "tab_or_space c \<longleftrightarrow> (of_char c :: nat) \<in> {0x09, 0x20}"

definition header_value :: "string \<Rightarrow> bool" where
  "header_value v \<longleftrightarrow>
     (v = [] \<or> (\<not> tab_or_space (hd v) \<and> \<not> tab_or_space (last v))) \<and>
     list_all (\<lambda>c. (of_char c :: nat) \<notin> {0, 0x0A, 0x0D}) v"

text \<open>
  A string that the conversion and the normalisation leave as it is: characters below
  U+0080, and no white space at either end.
\<close>

definition bare :: "string \<Rightarrow> bool" where
  "bare v \<longleftrightarrow>
     list_all ascii v \<and>
     (v = [] \<or> (\<not> HTTP_whitespace (hd v) \<and> \<not> HTTP_whitespace (last v)))"

text \<open>
  What \<^verbatim>\<open>append\<close> and \<^verbatim>\<open>set\<close> do before they touch the list: both arguments are
  converted, the value is normalised, and a name or a value that is not legal throws a
  TypeError. Names are compared without regard to case, and the model keeps them in
  lower case.
\<close>

definition checked_header :: "string \<Rightarrow> string \<Rightarrow> exn + string \<times> string" where
  "checked_header name v =
     (case ByteString name of
        Inl e \<Rightarrow> Inl e
      | Inr n \<Rightarrow>
          (case ByteString v of
             Inl e \<Rightarrow> Inl e
           | Inr bytes \<Rightarrow>
               if header_name n \<and> header_value (normalize_value bytes)
               then Inr (lower n, normalize_value bytes)
               else Inl TypeError))"

text \<open>
  A \<^verbatim>\<open>Headers\<close> object is the list of its headers. \<^verbatim>\<open>append\<close> adds a header at the
  end; \<^verbatim>\<open>set\<close> gives the first header of that name the new value and removes the
  others, or appends when there is none; \<^verbatim>\<open>new Headers(init)\<close> appends the pairs of
  \<open>init\<close> in order, and is empty when \<open>init\<close> is \<^verbatim>\<open>undefined\<close>.
\<close>

definition Headers_append :: "pairs \<Rightarrow> string \<Rightarrow> string \<Rightarrow> exn + pairs" where
  "Headers_append hs name v =
     (case checked_header name v of
        Inl e \<Rightarrow> Inl e
      | Inr h \<Rightarrow> Inr (hs @ [h]))"

definition Headers_set :: "pairs \<Rightarrow> string \<Rightarrow> string \<Rightarrow> exn + pairs" where
  "Headers_set hs name v =
     (case checked_header name v of
        Inl e \<Rightarrow> Inl e
      | Inr h \<Rightarrow> Inr (set_pair hs (fst h) (snd h)))"

fun Headers_fill :: "pairs \<Rightarrow> pairs \<Rightarrow> exn + pairs" where
  "Headers_fill hs [] = Inr hs"
| "Headers_fill hs ((name, v) # rest) =
     (case Headers_append hs name v of
        Inl e \<Rightarrow> Inl e
      | Inr hs' \<Rightarrow> Headers_fill hs' rest)"

definition new_Headers :: "pairs option \<Rightarrow> exn + pairs" where
  "new_Headers init = (case init of None \<Rightarrow> Inr [] | Some entries \<Rightarrow> Headers_fill [] entries)"

text \<open>
  Reading the list: the values of a name, joined with a comma and a space, or nothing
  when the list has no header of that name.
\<close>

fun join :: "string list \<Rightarrow> string" where
  "join [] = []"
| "join [v] = v"
| "join (v # w # vs) = v @ '', '' @ join (w # vs)"

definition Headers_get :: "pairs \<Rightarrow> string \<Rightarrow> string option" where
  "Headers_get hs name =
     (let vs = map snd (filter (\<lambda>p. fst p = lower name) hs)
      in if vs = [] then None else Some (join vs))"

subsection \<open>The request (part_002, lines 79-144)\<close>

text \<open>
  \<^verbatim>\<open>RequestInit\<close>: the headers the caller gives, and every other option, which the
  engine passes on without looking at it. The headers are the sequence of name-value
  pairs that \<^verbatim>\<open>new Headers\<close> reads from the caller's value: the pairs of an array,
  the entries of an object, or the headers of a \<^verbatim>\<open>Headers\<close> object.
\<close>

record 'r RequestInit =
  headers :: "pairs option"
  other_options :: 'r

record 'r args =
  path :: string
  replacePath :: "(string \<times> string) list option"
  query :: "(string \<times> query_value) list option"
  fetchOptions :: "'r RequestInit option"

text \<open>The two arguments of the call of \<^verbatim>\<open>fetch\<close>.\<close>

record 'r outgoing =
  out_url :: string
  out_headers :: pairs
  out_options :: "'r option"

record response =
  ok :: bool
  status :: "int option"
  json_result :: "exn + json"

record 'r platform =
  new_URL :: "string \<Rightarrow> string \<Rightarrow> exn + URL"
  fetch :: "'r outgoing \<Rightarrow> exn + response"

text \<open>
  Lines 94-124 up to the call of \<^verbatim>\<open>fetch\<close>: the final path, the URL against
  \<^verbatim>\<open>this.apiUrl\<close>, the query, the headers, and the options
  \<^verbatim>\<open>{...fetchOptions, headers}\<close>. The URL constructor may throw, and so may
  \<^verbatim>\<open>new Headers\<close> and each \<^verbatim>\<open>headers.set\<close>; then \<^verbatim>\<open>fetch\<close> is not called.
\<close>

definition prepare ::
  "(string \<Rightarrow> string \<Rightarrow> exn + URL) \<Rightarrow> NookipediaApi \<Rightarrow> 'r args \<Rightarrow> exn + 'r outgoing" where
  "prepare URL_ctor this a =
     (case URL_ctor (finalPath (path a) (replacePath a)) (apiUrl this) of
        Inl e \<Rightarrow> Inl e
      | Inr url0 \<Rightarrow>
          let url = (case query a of None \<Rightarrow> url0 | Some q \<Rightarrow> foldl add_entry url0 q)
          in (case new_Headers (case fetchOptions a of None \<Rightarrow> None
                                | Some fo \<Rightarrow> headers fo) of
                Inl e \<Rightarrow> Inl e
              | Inr hs0 \<Rightarrow>
                  (case Headers_set hs0 ''Accept-Version'' NOOKIPEDIA_API_VERSION of
                     Inl e \<Rightarrow> Inl e
                   | Inr hs1 \<Rightarrow>
                       (case Headers_set hs1 ''X-API-KEY'' (apiKey this) of
                          Inl e \<Rightarrow> Inl e
                        | Inr hs2 \<Rightarrow>
                            Inr \<lparr>out_url = href url, out_headers = hs2,
                                 out_options = map_option other_options (fetchOptions a)\<rparr>))))"

text \<open>How a call ends: with the body, with a \<^verbatim>\<open>NookipediaError\<close>, or with an exception
  that the engine did not raise itself.\<close>

datatype rejection = Thrown nookipedia_error | Raised exn

text \<open>The \<^verbatim>\<open>switch\<close> of lines 129-143.\<close>

definition throw_for_status :: "int option \<Rightarrow> json \<Rightarrow> exn + nookipedia_error" where
  "throw_for_status st b =
     (if st = Some 400 then new_NookipediaError400 b
      else if st = Some 401 then new_NookipediaError401 b
      else if st = Some 404 then new_NookipediaError404 b
      else if st = Some 500 then new_NookipediaError500 b
      else new_NookipediaError
             (JObject [(''title'', JString ''Failed to fetch Nookipedia API'')]) st)"

text \<open>The \<^verbatim>\<open>switch\<close> of the older revision, \<^verbatim>\<open>src/index.ts\<close> lines 114-126.\<close>

definition throw_for_status_1_0_0 :: "int option \<Rightarrow> json \<Rightarrow> exn + nookipedia_error" where
  "throw_for_status_1_0_0 st b =
     (if st = Some 401 then new_NookipediaError401 b
      else if st = Some 404 then new_NookipediaError404 b
      else if st = Some 500 then new_NookipediaError500 b
      else new_NookipediaError
             (JObject [(''title'', JString ''Failed to fetch Nookipedia API'')]) st)"

text \<open>Lines 125-143: the body is decoded first, then \<^verbatim>\<open>ok\<close> and the status are read.\<close>

definition settle :: "response \<Rightarrow> rejection + json" where
  "settle fetchResponse =
     (case json_result fetchResponse of
        Inl e \<Rightarrow> Inl (Raised e)
      | Inr b \<Rightarrow>
          if ok fetchResponse then Inr b
          else (case throw_for_status (status fetchResponse) b of
                  Inl e \<Rightarrow> Inl (Raised e)
                | Inr err \<Rightarrow> Inl (Thrown err)))"

text \<open>
  The whole call, with the client passed through: the result and the client as the call
  leaves it.
\<close>

definition request ::
  "'r platform \<Rightarrow> NookipediaApi \<Rightarrow> 'r args \<Rightarrow> (rejection + json) \<times> NookipediaApi" where
  "request pf this a =
     (case prepare (new_URL pf) this a of
        Inl e \<Rightarrow> (Inl (Raised e), this)
      | Inr out \<Rightarrow>
          (case fetch pf out of
             Inl e \<Rightarrow> (Inl (Raised e), this)
           | Inr fetchResponse \<Rightarrow> (settle fetchResponse, this)))"

subsection \<open>The URL constructor on a base of the web\<close>

text \<open>
  \<^verbatim>\<open>new URL(path, base)\<close> is the parser of the URL standard, run on the base and then
  on the path against the parsed base. The model follows the parser as far as the
  result depends on the base when the path begins with a slash and the base has one of
  the special schemes other than \<^verbatim>\<open>file\<close>:
  \<^item> leading and trailing C0 controls and spaces are removed from the input, then every
    tab and newline (\<open>preprocess\<close>);
  \<^item> the scheme is a letter followed by letters, digits, \<^verbatim>\<open>+\<close>, \<^verbatim>\<open>-\<close> and \<^verbatim>\<open>.\<close>
    up to a colon, in lower case; an input without one fails (\<open>scan_scheme\<close>);
  \<^item> after a special scheme every slash and backslash is skipped, and the authority
    runs to the next slash, backslash, question mark or number sign, or to the end;
    credentials, host and port are parsed from it, which may fail (\<open>parse_base\<close>);
  \<^item> a path that begins with a slash takes the scheme and the authority of the base and
    nothing else of it (\<open>URL_standard\<close>).
  The parser of the authority, the rest of the parser, which builds the URL from the
  scheme, the authority and the path, and the constructor on every other input are
  parameters: the model says nothing about them.
\<close>

definition c0_or_space :: "char \<Rightarrow> bool" where
  "c0_or_space c \<longleftrightarrow> (of_char c :: nat) \<le> 0x20"

definition tab_or_newline :: "char \<Rightarrow> bool" where
  "tab_or_newline c \<longleftrightarrow> (of_char c :: nat) \<in> {0x09, 0x0A, 0x0D}"

definition preprocess :: "string \<Rightarrow> string" where
  "preprocess s =
     filter (\<lambda>c. \<not> tab_or_newline c)
       (rev (dropWhile c0_or_space (rev (dropWhile c0_or_space s))))"

definition scheme_char :: "char \<Rightarrow> bool" where
  "scheme_char c \<longleftrightarrow> is_alpha c \<or> c \<in> set ''0123456789+-.''"

definition scan_scheme :: "string \<Rightarrow> (string \<times> string) option" where
  "scan_scheme s =
     (case s of
        [] \<Rightarrow> None
      | c # _ \<Rightarrow>
          if \<not> is_alpha c then None
          else (case dropWhile scheme_char s of
                  [] \<Rightarrow> None
                | d # rest \<Rightarrow>
                    if d = CHR '':'' then Some (lower (takeWhile scheme_char s), rest)
                    else None))"

definition web_scheme :: "string \<Rightarrow> bool" where
  "web_scheme scheme \<longleftrightarrow> scheme \<in> {''ftp'', ''http'', ''https'', ''ws'', ''wss''}"

definition slash :: "char \<Rightarrow> bool" where
  "slash c \<longleftrightarrow> c = CHR ''/'' \<or> c = CHR 0x5C"

definition ends_authority :: "char \<Rightarrow> bool" where
  "ends_authority c \<longleftrightarrow> slash c \<or> c = CHR ''?'' \<or> c = CHR ''#''"

text \<open>
  A parsed base: the parser failed, or it found a special scheme and an authority, or
  the base is one that the model does not cover.
\<close>

datatype 'a base = Invalid | With_authority string 'a | Uncovered

definition parse_base :: "(string \<Rightarrow> string \<Rightarrow> 'a option) \<Rightarrow> string \<Rightarrow> 'a base" where
  "parse_base parse_authority input =
     (case scan_scheme (preprocess input) of
        None \<Rightarrow> Invalid
      | Some (scheme, rest) \<Rightarrow>
          if web_scheme scheme then
            (case parse_authority scheme
                    (takeWhile (\<lambda>c. \<not> ends_authority c) (dropWhile slash rest)) of
               None \<Rightarrow> Invalid
             | Some au \<Rightarrow> With_authority scheme au)
          else Uncovered)"

definition URL_standard ::
  "(string \<Rightarrow> string \<Rightarrow> 'a option) \<Rightarrow> (string \<Rightarrow> 'a \<Rightarrow> string \<Rightarrow> exn + URL) \<Rightarrow>
   (string \<Rightarrow> string \<Rightarrow> exn + URL) \<Rightarrow> string \<Rightarrow> string \<Rightarrow> exn + URL" where
  "URL_standard parse_authority finish other p b =
     (case preprocess p of
        [] \<Rightarrow> other p b
      | c # _ \<Rightarrow>
          if c \<noteq> CHR ''/'' then other p b
          else (case parse_base parse_authority b of
                  Invalid \<Rightarrow> Inl TypeError
                | With_authority scheme au \<Rightarrow> finish scheme au p
                | Uncovered \<Rightarrow> other p b))"

text \<open>
  A base URL of the web: a string without spaces and control characters whose scheme is
  \<^verbatim>\<open>ftp\<close>, \<^verbatim>\<open>http\<close>, \<^verbatim>\<open>https\<close>, \<^verbatim>\<open>ws\<close> or \<^verbatim>\<open>wss\<close>.
\<close>

definition web_base :: "string \<Rightarrow> bool" where
  "web_base b \<longleftrightarrow>
     (\<forall>c \<in> set b. \<not> c0_or_space c) \<and>
     (case scan_scheme b of None \<Rightarrow> False | Some (scheme, rest) \<Rightarrow> web_scheme scheme)"

subsection \<open>A platform to evaluate on\<close>

text \<open>
  The test file replaces \<^verbatim>\<open>fetch\<close> by a mock that answers every call with a fixed
  response; \<open>mock_fetch\<close> is that mock. \<open>origin_URL\<close> stands for the URL constructor
  on the inputs the examples use: a base that is an origin, with or without the
  trailing slash, and a path of letters, digits and slashes that begins with a slash,
  which the parser joins unchanged.
\<close>

definition origin_URL :: "string \<Rightarrow> string \<Rightarrow> exn + URL" where
  "origin_URL p base =
     Inr \<lparr>before_query = (if suffix ''/'' base then butlast base else base) @ p,
          url_query = None, searchParams = [], fragment = None\<rparr>"

definition mock_fetch :: "response \<Rightarrow> unit platform" where
  "mock_fetch fetchResponse = \<lparr>new_URL = origin_URL, fetch = (\<lambda>out. Inr fetchResponse)\<rparr>"

definition getAllBugs_args :: "unit args" where
  "getAllBugs_args = \<lparr>path = ''/nh/bugs'', replacePath = None, query = None, fetchOptions = None\<rparr>"

text \<open>
  The open parts of \<open>URL_standard\<close> on the inputs of the examples. The authority is
  a host alone: an empty host fails, and so does a host with a forbidden host code
  point (NUL, tab, line feed, carriage return, space, backslash and
  \<^verbatim>\<open># / : < > ? @ [ ] ^ |\<close>); a host name of lower-case letters and dots is kept
  as it is. The colon, the at sign and the bracket, which in an authority set off a
  port, credentials and an address, are outside these inputs. A path of letters, digits
  and slashes is kept.
\<close>

definition forbidden_host_code_point :: "char \<Rightarrow> bool" where
  "forbidden_host_code_point c \<longleftrightarrow>
     (of_char c :: nat) \<in>
       {0, 0x09, 0x0A, 0x0D, 0x20, 0x23, 0x2F, 0x3A, 0x3C, 0x3E, 0x3F, 0x40,
        0x5B, 0x5C, 0x5D, 0x5E, 0x7C}"

definition simple_authority :: "string \<Rightarrow> string \<Rightarrow> string option" where
  "simple_authority scheme a =
     (if a = [] \<or> list_ex forbidden_host_code_point a then None else Some a)"

definition simple_finish :: "string \<Rightarrow> string \<Rightarrow> string \<Rightarrow> exn + URL" where
  "simple_finish scheme au p =
     Inr \<lparr>before_query = scheme @ ''://'' @ au @ p,
          url_query = None, searchParams = [], fragment = None\<rparr>"

definition simple_URL :: "string \<Rightarrow> string \<Rightarrow> exn + URL" where
  "simple_URL = URL_standard simple_authority simple_finish (\<lambda>p b. Inl TypeError)"

section \<open>Properties\<close>

subsection \<open>Constructors and the end of a call\<close>

lemma new_NookipediaError_ok:
  "message_ok b \<Longrightarrow>
   new_NookipediaError b c = Inr \<lparr>cls = NookipediaError, body = b, code = c\<rparr>"
  by (auto simp: message_ok_def new_NookipediaError_def split: sum.splits option.splits)

lemma new_NookipediaError_fails:
  "\<not> message_ok b \<Longrightarrow> new_NookipediaError b c = Inl TypeError"
  by (cases b) (auto simp: message_ok_def new_NookipediaError_def split: option.splits)

lemma new_NookipediaError_Inr:
  "new_NookipediaError b c = Inr e \<Longrightarrow> e = \<lparr>cls = NookipediaError, body = b, code = c\<rparr>"
  by (auto simp: new_NookipediaError_def split: sum.splits option.splits if_splits)

lemma new_subclass_ok:
  "message_ok b \<Longrightarrow> new_subclass k n b = Inr \<lparr>cls = k, body = b, code = Some n\<rparr>"
  by (simp add: new_subclass_def new_NookipediaError_ok)

lemma new_subclass_Inr:
  "new_subclass k n b = Inr e \<Longrightarrow> e = \<lparr>cls = k, body = b, code = Some n\<rparr>"
  by (auto simp: new_subclass_def dest: new_NookipediaError_Inr split: sum.splits)

lemma fallback_message_ok:
  "message_ok (JObject [(''title'', JString ''Failed to fetch Nookipedia API'')])"
  by (simp add: message_ok_def)

lemma settle_json_fails: "json_result r = Inl e \<Longrightarrow> settle r = Inl (Raised e)"
  by (simp add: settle_def)

lemma settle_ok: "json_result r = Inr b \<Longrightarrow> ok r \<Longrightarrow> settle r = Inr b"
  by (simp add: settle_def)

lemma settle_not_ok:
  "json_result r = Inr b \<Longrightarrow> \<not> ok r \<Longrightarrow>
   settle r = (case throw_for_status (status r) b of
                 Inl e \<Rightarrow> Inl (Raised e)
               | Inr err \<Rightarrow> Inl (Thrown err))"
  by (simp add: settle_def)

lemma request_settle:
  "prepare (new_URL pf) this a = Inr out \<Longrightarrow> fetch pf out = Inr r \<Longrightarrow>
   fst (request pf this a) = settle r"
  by (simp add: request_def)

lemma ByteString_ascii: "list_all ascii s \<Longrightarrow> ByteString s = Inr s"
  by (induction s rule: ByteString.induct) auto

lemma continuation_not_ascii: "continuation d \<Longrightarrow> \<not> ascii d"
  by (simp add: continuation_def ascii_def)

lemma shifted_not_ascii: "continuation d \<Longrightarrow> \<not> ascii (char_of (of_char d + (0x40 :: nat)))"
  by (simp add: continuation_def ascii_def)

lemma ByteString_ascii_result: "ByteString s = Inr n \<Longrightarrow> list_all ascii n \<Longrightarrow> n = s"
proof (induction s arbitrary: n rule: ByteString.induct)
  case 1
  then show ?case by simp
next
  case (2 c)
  then show ?case by (simp split: if_splits)
next
  case (3 c d s)
  then show ?case
    by (auto simp: continuation_not_ascii shifted_not_ascii split: if_splits sum.splits)
qed

lemma normalize_value_bare: "bare v \<Longrightarrow> normalize_value v = v"
proof (cases v)
  case Nil
  then show ?thesis by (simp add: normalize_value_def)
next
  case (Cons c w)
  assume "bare v"
  with Cons have h: "\<not> HTTP_whitespace (hd v)" and l: "\<not> HTTP_whitespace (last v)"
    by (auto simp: bare_def)
  from h have "dropWhile HTTP_whitespace v = v"
    by (simp add: dropWhile_eq_self_iff)
  moreover from l have "dropWhile HTTP_whitespace (rev v) = rev v"
    by (simp add: dropWhile_eq_self_iff hd_rev)
  ultimately show ?thesis by (simp add: normalize_value_def)
qed

lemma is_alpha_ascii: "is_alpha c \<Longrightarrow> ascii c"
proof -
  assume "is_alpha c"
  then have "c \<in> set ''abcdefghijklmnopqrstuvwxyzABCDEFGHIJKLMNOPQRSTUVWXYZ''"
    by (auto simp: is_alpha_def lower_char_def split: option.splits if_splits)
  then show ?thesis
    by (auto simp: ascii_def)
qed

lemma tchar_ascii: "tchar c \<Longrightarrow> ascii c"
  by (auto simp: tchar_def is_alpha_ascii) (auto simp: ascii_def)

lemma header_name_ascii: "header_name n \<Longrightarrow> list_all ascii n"
  by (auto simp: header_name_def list_all_iff tchar_ascii)

lemma checked_header_Inr:
  assumes "checked_header name v = Inr h"
  shows "\<exists>bytes. ByteString v = Inr bytes \<and> header_name name \<and>
           header_value (normalize_value bytes) \<and> h = (lower name, normalize_value bytes)"
proof -
  from assms obtain n bytes where n: "ByteString name = Inr n" and b: "ByteString v = Inr bytes"
    and ok: "header_name n" "header_value (normalize_value bytes)"
    and h: "h = (lower n, normalize_value bytes)"
    by (auto simp: checked_header_def split: sum.splits if_splits)
  from n ok(1) have "n = name"
    by (intro ByteString_ascii_result header_name_ascii)
  with b ok h show ?thesis by simp
qed

lemma checked_header_ok:
  "header_name name \<Longrightarrow> ByteString v = Inr bytes \<Longrightarrow> header_value (normalize_value bytes) \<Longrightarrow>
   checked_header name v = Inr (lower name, normalize_value bytes)"
  by (simp add: checked_header_def ByteString_ascii header_name_ascii)

lemma lower_names:
  "lower ''Accept-Version'' = ''accept-version''" "lower ''X-API-KEY'' = ''x-api-key''"
  by (simp_all add: lower_def lower_char_def)

lemma mandatory_names: "header_name ''Accept-Version''" "header_name ''X-API-KEY''"
  by (simp_all add: header_name_def tchar_def is_alpha_def lower_char_def)

lemma version_value:
  "ByteString NOOKIPEDIA_API_VERSION = Inr NOOKIPEDIA_API_VERSION"
  "normalize_value NOOKIPEDIA_API_VERSION = NOOKIPEDIA_API_VERSION"
  "header_value NOOKIPEDIA_API_VERSION"
  by (simp_all add: NOOKIPEDIA_API_VERSION_def ascii_def normalize_value_def
      HTTP_whitespace_def header_value_def tab_or_space_def)

lemma Headers_set_version:
  "Headers_set hs ''Accept-Version'' NOOKIPEDIA_API_VERSION =
   Inr (set_pair hs ''accept-version'' NOOKIPEDIA_API_VERSION)"
  using checked_header_ok [OF mandatory_names(1) version_value(1)]
  by (simp add: Headers_set_def version_value lower_names)

lemma Headers_set_key:
  "Headers_set hs ''X-API-KEY'' k =
     (case ByteString k of
        Inl e \<Rightarrow> Inl e
      | Inr key \<Rightarrow>
          if header_value (normalize_value key)
          then Inr (set_pair hs ''x-api-key'' (normalize_value key))
          else Inl TypeError)"
proof -
  have "ByteString ''X-API-KEY'' = Inr ''X-API-KEY''"
    by (intro ByteString_ascii header_name_ascii mandatory_names)
  then show ?thesis
    by (simp add: Headers_set_def checked_header_def mandatory_names lower_names
        del: ByteString.simps split: sum.splits)
qed

lemma bare_key:
  assumes "bare k" and "list_all (\<lambda>c. (of_char c :: nat) \<notin> {0, 0x0A, 0x0D}) k"
  shows "ByteString k = Inr k" and "normalize_value k = k" and "header_value k"
proof -
  show "ByteString k = Inr k"
    using assms(1) by (simp add: bare_def ByteString_ascii)
  show "normalize_value k = k"
    using assms(1) by (rule normalize_value_bare)
  show "header_value k"
    using assms by (auto simp: header_value_def bare_def tab_or_space_def HTTP_whitespace_def)
qed

text \<open>The calls that reach \<^verbatim>\<open>fetch\<close>, and what they pass to it.\<close>

lemma prepare_Inr:
  assumes "prepare URL_ctor this a = Inr out"
  shows "\<exists>url0 hs0 key.
           URL_ctor (finalPath (path a) (replacePath a)) (apiUrl this) = Inr url0 \<and>
           new_Headers (case fetchOptions a of None \<Rightarrow> None | Some fo \<Rightarrow> headers fo) = Inr hs0 \<and>
           ByteString (apiKey this) = Inr key \<and> header_value (normalize_value key) \<and>
           out = \<lparr>out_url = href (case query a of None \<Rightarrow> url0
                                   | Some q \<Rightarrow> foldl add_entry url0 q),
                  out_headers = set_pair (set_pair hs0 ''accept-version'' NOOKIPEDIA_API_VERSION)
                                  ''x-api-key'' (normalize_value key),
                  out_options = map_option other_options (fetchOptions a)\<rparr>"
  using assms
  by (auto simp: prepare_def Let_def Headers_set_version Headers_set_key
      split: sum.splits if_splits)

lemma prepare_reaches:
  assumes "URL_ctor (finalPath (path a) (replacePath a)) (apiUrl this) = Inr url0"
    and "new_Headers (case fetchOptions a of None \<Rightarrow> None | Some fo \<Rightarrow> headers fo) = Inr hs0"
    and "ByteString (apiKey this) = Inr key" and "header_value (normalize_value key)"
  shows "prepare URL_ctor this a =
         Inr \<lparr>out_url = href (case query a of None \<Rightarrow> url0 | Some q \<Rightarrow> foldl add_entry url0 q),
              out_headers = set_pair (set_pair hs0 ''accept-version'' NOOKIPEDIA_API_VERSION)
                              ''x-api-key'' (normalize_value key),
              out_options = map_option other_options (fetchOptions a)\<rparr>"
  using assms by (simp add: prepare_def Let_def Headers_set_version Headers_set_key)

lemma key_is_bare: "bare ''key''" "list_all (\<lambda>c. (of_char c :: nat) \<notin> {0, 0x0A, 0x0D}) ''key''"
  by (simp_all add: bare_def ascii_def HTTP_whitespace_def)

lemma prepare_getAllBugs:
  "\<exists>out. prepare origin_URL (new_NookipediaApi ''key'' None) getAllBugs_args = Inr out"
proof -
  have "new_Headers (case fetchOptions getAllBugs_args of None \<Rightarrow> None
                     | Some fo \<Rightarrow> headers fo) = Inr []"
    by (simp add: getAllBugs_args_def new_Headers_def)
  moreover have "ByteString (apiKey (new_NookipediaApi ''key'' None)) = Inr ''key''"
    and "header_value (normalize_value ''key'')"
    using bare_key [OF key_is_bare] by (simp_all add: new_NookipediaApi_def)
  ultimately show ?thesis
    using prepare_reaches [of origin_URL getAllBugs_args "new_NookipediaApi ''key'' None"]
    by (simp add: origin_URL_def)
qed

lemma mock_fetch_simps:
  "fetch (mock_fetch r) out = Inr r" "new_URL (mock_fetch r) = origin_URL"
  by (simp_all add: mock_fetch_def)

lemma mock_fetch_reaches:
  "\<exists>out. prepare (new_URL (mock_fetch r)) (new_NookipediaApi ''key'' None) getAllBugs_args =
            Inr out \<and>
          fetch (mock_fetch r) out = Inr r"
  using prepare_getAllBugs by (auto simp: mock_fetch_simps)

lemma origin_URL_is_standard:
  "origin_URL ''/nh/bugs'' ''https://api.nookipedia.com/'' =
   simple_URL ''/nh/bugs'' ''https://api.nookipedia.com/''"
  by (simp add: origin_URL_def simple_URL_def URL_standard_def parse_base_def preprocess_def
      c0_or_space_def tab_or_newline_def scan_scheme_def is_alpha_def scheme_char_def
      lower_char_def lower_def web_scheme_def slash_def ends_authority_def
      simple_authority_def forbidden_host_code_point_def simple_finish_def suffix_to_prefix)

subsection \<open>C8: the code of a constructed error\<close>

text \<open>
  Claim C8. Every error value that a constructor returns has the code of its class: 400
  for NookipediaError400, 401 for NookipediaError401, 404 for NookipediaError404 and 500
  for NookipediaError500, whatever the body it was constructed with. Only the generic
  NookipediaError carries the code it was given, which may be absent.
\<close>

theorem subclass_code_is_constant:
  "(new_NookipediaError400 b1 = Inr e1 \<longrightarrow> cls e1 = NookipediaError400 \<and> code e1 = Some 400) \<and>
   (new_NookipediaError401 b2 = Inr e2 \<longrightarrow> cls e2 = NookipediaError401 \<and> code e2 = Some 401) \<and>
   (new_NookipediaError404 b3 = Inr e3 \<longrightarrow> cls e3 = NookipediaError404 \<and> code e3 = Some 404) \<and>
   (new_NookipediaError500 b4 = Inr e4 \<longrightarrow> cls e4 = NookipediaError500 \<and> code e4 = Some 500) \<and>
   (new_NookipediaError b5 c = Inr e5 \<longrightarrow> cls e5 = NookipediaError \<and> code e5 = c)"
  by (auto simp: new_NookipediaError400_def new_NookipediaError401_def
      new_NookipediaError404_def new_NookipediaError500_def
      dest: new_subclass_Inr new_NookipediaError_Inr)

theorem subclass_code_is_constant_witness:
  "(\<exists>e. new_NookipediaError400 (JObject []) = Inr e \<and> code e = Some 400) \<and>
   (\<exists>e. new_NookipediaError401 (JString ''denied'') = Inr e \<and> code e = Some 401) \<and>
   (\<exists>e. new_NookipediaError404 (JObject [(''title'', JString ''a'')]) = Inr e \<and>
        code e = Some 404) \<and>
   (\<exists>e. new_NookipediaError500 (JArray []) = Inr e \<and> code e = Some 500) \<and>
   (\<exists>e. new_NookipediaError (JObject []) None = Inr e \<and> code e = None)"
proof -
  obtain e1 where h1: "new_NookipediaError400 (JObject []) = Inr e1"
    by (simp add: new_NookipediaError400_def new_subclass_def new_NookipediaError_def)
  obtain e2 where h2: "new_NookipediaError401 (JString ''denied'') = Inr e2"
    by (simp add: new_NookipediaError401_def new_subclass_def new_NookipediaError_def)
  obtain e3 where h3: "new_NookipediaError404 (JObject [(''title'', JString ''a'')]) = Inr e3"
    by (simp add: new_NookipediaError404_def new_subclass_def new_NookipediaError_def)
  obtain e4 where h4: "new_NookipediaError500 (JArray []) = Inr e4"
    by (simp add: new_NookipediaError500_def new_subclass_def new_NookipediaError_def)
  obtain e5 where h5: "new_NookipediaError (JObject []) None = Inr e5"
    by (simp add: new_NookipediaError_def)
  show ?thesis
    using subclass_code_is_constant [of "JObject []" e1 "JString ''denied''" e2
        "JObject [(''title'', JString ''a'')]" e3 "JArray []" e4 "JObject []" None e5]
      h1 h2 h3 h4 h5
    by simp
qed

subsection \<open>C1: the specific errors\<close>

text \<open>
  Claim C1 says that every call whose response is not ok and has status 400, 401, 404 or
  500 rejects with the error class of that status, carrying the decoded body and the
  fixed code. The constructor reads \<^verbatim>\<open>body.title\<close>, so a body that decodes to
  \<^verbatim>\<open>null\<close> makes the call reject with a TypeError instead, and no NookipediaError
  is constructed: the claim fails there.
\<close>

theorem specific_status_null_body_counterexample:
  "fst (request (mock_fetch \<lparr>ok = False, status = Some 401, json_result = Inr JNull\<rparr>)
         (new_NookipediaApi ''key'' None) getAllBugs_args) = Inl (Raised TypeError)"
proof -
  obtain out where
    "prepare origin_URL (new_NookipediaApi ''key'' None) getAllBugs_args = Inr out"
    using prepare_getAllBugs by blast
  then show ?thesis
    by (simp add: request_def mock_fetch_simps settle_def throw_for_status_def
        new_NookipediaError401_def new_subclass_def new_NookipediaError_def)
qed

text \<open>
  Claim C1, amended. When the transport returns a response that is not ok, with status
  400, 401, 404 or 500, and the body decodes to a value that is not \<^verbatim>\<open>null\<close> and whose
  title, if it has one, converts to a string, the call rejects with NookipediaError400,
  NookipediaError401, NookipediaError404 or NookipediaError500 respectively, carrying the
  decoded body unchanged and the code 400, 401, 404 or 500.
\<close>

theorem specific_status_rejects_with_typed_error:
  assumes "prepare (new_URL pf) this a = Inr out" and "fetch pf out = Inr r"
    and "\<not> ok r" and "json_result r = Inr b" and "message_ok b"
  shows "(status r = Some 400 \<longrightarrow> fst (request pf this a) =
            Inl (Thrown \<lparr>cls = NookipediaError400, body = b, code = Some 400\<rparr>)) \<and>
         (status r = Some 401 \<longrightarrow> fst (request pf this a) =
            Inl (Thrown \<lparr>cls = NookipediaError401, body = b, code = Some 401\<rparr>)) \<and>
         (status r = Some 404 \<longrightarrow> fst (request pf this a) =
            Inl (Thrown \<lparr>cls = NookipediaError404, body = b, code = Some 404\<rparr>)) \<and>
         (status r = Some 500 \<longrightarrow> fst (request pf this a) =
            Inl (Thrown \<lparr>cls = NookipediaError500, body = b, code = Some 500\<rparr>))"
proof -
  have "fst (request pf this a) =
        (case throw_for_status (status r) b of
           Inl e \<Rightarrow> Inl (Raised e)
         | Inr err \<Rightarrow> Inl (Thrown err))"
    using assms by (simp add: request_settle settle_not_ok)
  then show ?thesis
    using \<open>message_ok b\<close>
    by (simp add: throw_for_status_def new_NookipediaError400_def new_NookipediaError401_def
        new_NookipediaError404_def new_NookipediaError500_def new_subclass_ok)
qed

theorem specific_status_rejects_with_typed_error_witness:
  "fst (request (mock_fetch \<lparr>ok = False, status = Some 401,
                             json_result = Inr (JObject [(''title'', JString ''a'')])\<rparr>)
         (new_NookipediaApi ''key'' None) getAllBugs_args) =
   Inl (Thrown \<lparr>cls = NookipediaError401, body = JObject [(''title'', JString ''a'')],
                code = Some 401\<rparr>)"
proof -
  let ?r = "\<lparr>ok = False, status = Some 401,
             json_result = Inr (JObject [(''title'', JString ''a'')])\<rparr>"
  obtain out where p: "prepare (new_URL (mock_fetch ?r)) (new_NookipediaApi ''key'' None)
      getAllBugs_args = Inr out" and f: "fetch (mock_fetch ?r) out = Inr ?r"
    using mock_fetch_reaches by blast
  have m: "message_ok (JObject [(''title'', JString ''a'')])"
    by (simp add: message_ok_def)
  show ?thesis
    using specific_status_rejects_with_typed_error [OF p f _ _ m] by simp
qed

text \<open>
  The older revision of the switch (\<^verbatim>\<open>src/index.ts\<close>, lines 114-126) has no case for
  400 and no class NookipediaError400: there the status 400 falls to the default.
\<close>

lemma status_400_in_revision_1_0_0:
  "throw_for_status_1_0_0 (Some 400) b =
   Inr \<lparr>cls = NookipediaError,
        body = JObject [(''title'', JString ''Failed to fetch Nookipedia API'')],
        code = Some 400\<rparr>"
  by (simp add: throw_for_status_1_0_0_def new_NookipediaError_ok fallback_message_ok)

lemma other_statuses_in_revision_1_0_0:
  "st \<noteq> Some 400 \<Longrightarrow> throw_for_status_1_0_0 st b = throw_for_status st b"
  by (simp add: throw_for_status_1_0_0_def throw_for_status_def)

subsection \<open>C2: the generic error\<close>

text \<open>
  Claim C2 says that every call whose response is not ok and has a status outside the
  classified values rejects with the generic NookipediaError. The body is decoded before
  the status is read, so a response with status 502 whose body is not JSON makes the call
  reject with the exception of the decoder, and no NookipediaError is constructed: the
  claim fails there.
\<close>

theorem unclassified_status_undecodable_counterexample:
  "fst (request (mock_fetch \<lparr>ok = False, status = Some 502,
                             json_result = Inl (HostException ''SyntaxError'')\<rparr>)
         (new_NookipediaApi ''key'' None) getAllBugs_args) =
     Inl (Raised (HostException ''SyntaxError'')) \<and>
   (\<forall>err. fst (request (mock_fetch \<lparr>ok = False, status = Some 502,
                                     json_result = Inl (HostException ''SyntaxError'')\<rparr>)
                 (new_NookipediaApi ''key'' None) getAllBugs_args) \<noteq> Inl (Thrown err))"
proof -
  let ?r = "\<lparr>ok = False, status = Some 502, json_result = Inl (HostException ''SyntaxError'')\<rparr>"
  obtain out where "prepare (new_URL (mock_fetch ?r)) (new_NookipediaApi ''key'' None)
      getAllBugs_args = Inr out" and "fetch (mock_fetch ?r) out = Inr ?r"
    using mock_fetch_reaches by blast
  then show ?thesis
    by (simp add: request_settle settle_json_fails)
qed

text \<open>
  Claim C2, amended. When the transport returns a response that is not ok, whose body
  decodes as JSON and whose status is none of the classified values, the call rejects
  with the generic NookipediaError, whose body is the fixed title
  'Failed to fetch Nookipedia API' and whose code is the status that the transport
  reported, absent when the transport reported none. Status 999 gives the generic error
  with code 999.
\<close>

theorem unclassified_status_rejects_with_generic_error:
  assumes "prepare (new_URL pf) this a = Inr out" and "fetch pf out = Inr r"
    and "\<not> ok r" and "json_result r = Inr b"
    and "status r \<notin> {Some 400, Some 401, Some 404, Some 500}"
  shows "fst (request pf this a) =
           Inl (Thrown \<lparr>cls = NookipediaError,
                        body = JObject [(''title'', JString ''Failed to fetch Nookipedia API'')],
                        code = status r\<rparr>)"
proof -
  have "fst (request pf this a) =
        (case throw_for_status (status r) b of
           Inl e \<Rightarrow> Inl (Raised e)
         | Inr err \<Rightarrow> Inl (Thrown err))"
    using assms by (simp add: request_settle settle_not_ok)
  then show ?thesis
    using assms(5)
    by (simp add: throw_for_status_def new_NookipediaError_ok fallback_message_ok)
qed

theorem unclassified_status_rejects_with_generic_error_witness:
  "fst (request (mock_fetch \<lparr>ok = False, status = Some 999, json_result = Inr (JObject [])\<rparr>)
         (new_NookipediaApi ''key'' None) getAllBugs_args) =
     Inl (Thrown \<lparr>cls = NookipediaError,
                  body = JObject [(''title'', JString ''Failed to fetch Nookipedia API'')],
                  code = Some 999\<rparr>) \<and>
   fst (request (mock_fetch \<lparr>ok = False, status = None, json_result = Inr (JObject [])\<rparr>)
         (new_NookipediaApi ''key'' None) getAllBugs_args) =
     Inl (Thrown \<lparr>cls = NookipediaError,
                  body = JObject [(''title'', JString ''Failed to fetch Nookipedia API'')],
                  code = None\<rparr>)"
proof -
  let ?r = "\<lparr>ok = False, status = Some 999, json_result = Inr (JObject [])\<rparr>"
  let ?n = "\<lparr>ok = False, status = None, json_result = Inr (JObject [])\<rparr>"
  obtain out where p: "prepare (new_URL (mock_fetch ?r)) (new_NookipediaApi ''key'' None)
      getAllBugs_args = Inr out" and f: "fetch (mock_fetch ?r) out = Inr ?r"
    using mock_fetch_reaches by blast
  obtain out' where p': "prepare (new_URL (mock_fetch ?n)) (new_NookipediaApi ''key'' None)
      getAllBugs_args = Inr out'" and f': "fetch (mock_fetch ?n) out' = Inr ?n"
    using mock_fetch_reaches by blast
  show ?thesis
    using unclassified_status_rejects_with_generic_error [OF p f, of "JObject []"]
      unclassified_status_rejects_with_generic_error [OF p' f', of "JObject []"]
    by simp
qed

subsection \<open>C3: success\<close>

text \<open>
  Claim C3 says that every call whose response has ok = true resolves to the decoded
  body and raises no error. A response with ok = true and status 200 whose body is not
  JSON makes the call reject with the exception of the decoder: the claim fails there.
\<close>

theorem ok_response_undecodable_counterexample:
  "fst (request (mock_fetch \<lparr>ok = True, status = Some 200,
                             json_result = Inl (HostException ''SyntaxError'')\<rparr>)
         (new_NookipediaApi ''key'' None) getAllBugs_args) =
     Inl (Raised (HostException ''SyntaxError'')) \<and>
   (\<forall>b. fst (request (mock_fetch \<lparr>ok = True, status = Some 200,
                                   json_result = Inl (HostException ''SyntaxError'')\<rparr>)
               (new_NookipediaApi ''key'' None) getAllBugs_args) \<noteq> Inr b)"
proof -
  let ?r = "\<lparr>ok = True, status = Some 200, json_result = Inl (HostException ''SyntaxError'')\<rparr>"
  obtain out where "prepare (new_URL (mock_fetch ?r)) (new_NookipediaApi ''key'' None)
      getAllBugs_args = Inr out" and "fetch (mock_fetch ?r) out = Inr ?r"
    using mock_fetch_reaches by blast
  then show ?thesis
    by (simp add: request_settle settle_json_fails)
qed

text \<open>
  Claim C3, amended. When the transport returns a response with ok = true whose body
  decodes as JSON, the call resolves to the decoded body itself, whatever value it is,
  with no validation, and raises no error; a body that decodes to {foo: 1} is returned
  as {foo: 1}.
\<close>

theorem ok_response_resolves_to_body:
  assumes "prepare (new_URL pf) this a = Inr out" and "fetch pf out = Inr r"
    and "ok r" and "json_result r = Inr b"
  shows "fst (request pf this a) = Inr b"
  using assms by (simp add: request_settle settle_ok)

theorem ok_response_resolves_to_body_witness:
  "fst (request (mock_fetch \<lparr>ok = True, status = None,
                             json_result = Inr (JObject [(''foo'', JNumber 1)])\<rparr>)
         (new_NookipediaApi ''key'' None) getAllBugs_args) =
   Inr (JObject [(''foo'', JNumber 1)])"
proof -
  let ?r = "\<lparr>ok = True, status = None, json_result = Inr (JObject [(''foo'', JNumber 1)])\<rparr>"
  obtain out where p: "prepare (new_URL (mock_fetch ?r)) (new_NookipediaApi ''key'' None)
      getAllBugs_args = Inr out" and f: "fetch (mock_fetch ?r) out = Inr ?r"
    using mock_fetch_reaches by blast
  show ?thesis
    using ok_response_resolves_to_body [OF p f, of "JObject [(''foo'', JNumber 1)]"] by simp
qed

subsection \<open>C10: a body that does not decode\<close>

text \<open>
  Claim C10. The body is decoded before the ok flag and the status are read: when the
  decoding of the body fails, the call rejects with the exception of the decoder itself,
  unchanged, whatever the ok flag and the status are (401, 404, 500 or any other), and
  the outcome is not a NookipediaError.
\<close>

theorem undecodable_body_propagates_exception:
  assumes "prepare (new_URL pf) this a = Inr out" and "fetch pf out = Inr r"
    and "json_result r = Inl e"
  shows "fst (request pf this a) = Inl (Raised e) \<and>
         (\<forall>err. fst (request pf this a) \<noteq> Inl (Thrown err))"
  using assms by (simp add: request_settle settle_json_fails)

theorem undecodable_body_propagates_exception_witness:
  "fst (request (mock_fetch \<lparr>ok = False, status = Some 401,
                             json_result = Inl (HostException ''SyntaxError'')\<rparr>)
         (new_NookipediaApi ''key'' None) getAllBugs_args) =
     Inl (Raised (HostException ''SyntaxError'')) \<and>
   fst (request (mock_fetch \<lparr>ok = True, status = Some 200,
                             json_result = Inl (HostException ''SyntaxError'')\<rparr>)
         (new_NookipediaApi ''key'' None) getAllBugs_args) =
     Inl (Raised (HostException ''SyntaxError''))"
proof -
  let ?r = "\<lparr>ok = False, status = Some 401,
             json_result = Inl (HostException ''SyntaxError'')\<rparr>"
  let ?s = "\<lparr>ok = True, status = Some 200,
             json_result = Inl (HostException ''SyntaxError'')\<rparr>"
  obtain out where p: "prepare (new_URL (mock_fetch ?r)) (new_NookipediaApi ''key'' None)
      getAllBugs_args = Inr out" and f: "fetch (mock_fetch ?r) out = Inr ?r"
    using mock_fetch_reaches by blast
  obtain out' where p': "prepare (new_URL (mock_fetch ?s)) (new_NookipediaApi ''key'' None)
      getAllBugs_args = Inr out'" and f': "fetch (mock_fetch ?s) out' = Inr ?s"
    using mock_fetch_reaches by blast
  show ?thesis
    using undecodable_body_propagates_exception [OF p f, of "HostException ''SyntaxError''"]
      undecodable_body_propagates_exception [OF p' f', of "HostException ''SyntaxError''"]
    by simp
qed

subsection \<open>Lists of pairs: \<open>set\<close>\<close>

lemma set_existing_same:
  "name \<in> fst ` set ps \<Longrightarrow>
   filter (\<lambda>p. fst p = name) (set_existing name v ps) = [(name, v)]"
  by (induction ps) (auto simp: filter_empty_conv)

lemma set_existing_other:
  "n \<noteq> name \<Longrightarrow>
   filter (\<lambda>p. fst p = n) (set_existing name v ps) = filter (\<lambda>p. fst p = n) ps"
proof (induction ps)
  case Nil
  then show ?case by simp
next
  case (Cons p ps)
  have "filter (\<lambda>q. fst q = n) (filter (\<lambda>q. fst q \<noteq> name) ps) = filter (\<lambda>q. fst q = n) ps"
    using Cons.prems by (induction ps) auto
  with Cons show ?case by auto
qed

lemma set_pair_same: "filter (\<lambda>p. fst p = name) (set_pair ps name v) = [(name, v)]"
proof (cases "name \<in> fst ` set ps")
  case True
  then show ?thesis by (simp add: set_pair_def set_existing_same)
next
  case False
  then have "filter (\<lambda>p. fst p = name) ps = []"
    by (auto simp: filter_empty_conv)
  with False show ?thesis by (simp add: set_pair_def)
qed

lemma set_pair_other:
  "n \<noteq> name \<Longrightarrow> filter (\<lambda>p. fst p = n) (set_pair ps name v) = filter (\<lambda>p. fst p = n) ps"
  by (simp add: set_pair_def set_existing_other)

subsection \<open>C4: the headers of the outgoing request\<close>

lemma Headers_get_set_same:
  "Headers_get (set_pair hs (lower name) v) name = Some v"
  by (simp add: Headers_get_def set_pair_same)

lemma Headers_get_set_other:
  "lower n \<noteq> name \<Longrightarrow> Headers_get (set_pair hs name v) n = Headers_get hs n"
  by (simp add: Headers_get_def set_pair_other)

lemma set_pair_keeps:
  assumes "(n, w) \<in> set ps" and "n \<noteq> name"
  shows "(n, w) \<in> set (set_pair ps name v)"
proof -
  have "(n, w) \<in> set (filter (\<lambda>p. fst p = n) ps)"
    using assms(1) by simp
  then have "(n, w) \<in> set (filter (\<lambda>p. fst p = n) (set_pair ps name v))"
    using assms(2) by (simp add: set_pair_other)
  then show ?thesis by simp
qed

lemma Headers_fill_holds:
  assumes "Headers_fill acc es = Inr hs"
  shows "set acc \<subseteq> set hs \<and>
         (\<forall>(name, v) \<in> set es. \<exists>bytes. ByteString v = Inr bytes \<and>
            (lower name, normalize_value bytes) \<in> set hs)"
  using assms
proof (induction acc es rule: Headers_fill.induct)
  case (1 hs')
  then show ?case by simp
next
  case (2 acc name v rest)
  from "2.prems" obtain h where c: "checked_header name v = Inr h"
    and f: "Headers_fill (acc @ [h]) rest = Inr hs"
    by (auto simp: Headers_append_def split: sum.splits)
  then have a: "Headers_append acc name v = Inr (acc @ [h])"
    by (simp add: Headers_append_def)
  from "2.IH" [OF a f] have sub: "set (acc @ [h]) \<subseteq> set hs"
    and rest: "\<forall>(name, v) \<in> set rest. \<exists>bytes. ByteString v = Inr bytes \<and>
            (lower name, normalize_value bytes) \<in> set hs"
    by auto
  from checked_header_Inr [OF c] obtain bytes where
    "ByteString v = Inr bytes" "h = (lower name, normalize_value bytes)"
    by blast
  with sub rest show ?case by auto
qed

lemma new_Headers_holds:
  "new_Headers (Some es) = Inr hs \<Longrightarrow> (name, v) \<in> set es \<Longrightarrow>
   \<exists>bytes. ByteString v = Inr bytes \<and> (lower name, normalize_value bytes) \<in> set hs"
  using Headers_fill_holds [of "[]" es hs] by (auto simp: new_Headers_def)

text \<open>
  Claim C4 says that in every call the outgoing headers have X-API-KEY equal to the
  apiKey field and every other header of the caller with its value unchanged.
  \<^verbatim>\<open>Headers\<close> removes the white space around a value: the key \<^verbatim>\<open>' key '\<close> is sent as
  \<^verbatim>\<open>'key'\<close> and the caller's value \<^verbatim>\<open>' padded'\<close> as \<^verbatim>\<open>'padded'\<close>. And a key with a
  line feed is not a legal value: \<^verbatim>\<open>headers.set\<close> throws a TypeError and there is no
  outgoing request. The claim fails on these calls.
\<close>

theorem header_value_counterexample:
  "(\<exists>out. prepare origin_URL (new_NookipediaApi '' key '' None) getAllBugs_args = Inr out \<and>
          Headers_get (out_headers out) ''X-API-KEY'' = Some ''key'') \<and>
   (\<exists>out. prepare origin_URL (new_NookipediaApi ''key'' None)
            (getAllBugs_args\<lparr>fetchOptions :=
               Some \<lparr>headers = Some [(''Test'', '' padded'')], other_options = ()\<rparr>\<rparr>) = Inr out \<and>
          Headers_get (out_headers out) ''Test'' = Some ''padded'') \<and>
   prepare origin_URL (new_NookipediaApi [CHR ''a'', CHR 0x0A, CHR ''b''] None) getAllBugs_args =
     Inl TypeError"
  by (simp add: prepare_def origin_URL_def getAllBugs_args_def new_NookipediaApi_def
      new_Headers_def Headers_append_def Headers_set_def checked_header_def ascii_def
      normalize_value_def HTTP_whitespace_def header_name_def header_value_def tchar_def
      is_alpha_def tab_or_space_def lower_def lower_char_def set_pair_def Headers_get_def
      NOOKIPEDIA_API_VERSION_def Let_def)

text \<open>
  Claim C4, amended. In every call that reaches the transport, the headers of the
  outgoing request have Accept-Version equal to NOOKIPEDIA_API_VERSION and X-API-KEY
  equal to the apiKey field of the client without the white space at its ends (the key
  itself when it has none and its characters are below U+0080), whatever the caller
  supplied under those two names; reading any other name gives what it gives on the
  caller's own headers, and every header that the caller supplied under another name is
  there with its value without the white space at its ends (unchanged when it has
  none).
\<close>

theorem mandatory_headers_win:
  assumes "prepare URL_ctor this a = Inr out"
  shows "Headers_get (out_headers out) ''Accept-Version'' = Some NOOKIPEDIA_API_VERSION \<and>
         (\<exists>key. ByteString (apiKey this) = Inr key \<and>
            Headers_get (out_headers out) ''X-API-KEY'' = Some (normalize_value key)) \<and>
         (bare (apiKey this) \<longrightarrow>
            Headers_get (out_headers out) ''X-API-KEY'' = Some (apiKey this)) \<and>
         (\<exists>hs0. new_Headers (case fetchOptions a of None \<Rightarrow> None
                              | Some fo \<Rightarrow> headers fo) = Inr hs0 \<and>
            (\<forall>name. lower name \<noteq> ''accept-version'' \<and> lower name \<noteq> ''x-api-key'' \<longrightarrow>
               Headers_get (out_headers out) name = Headers_get hs0 name)) \<and>
         (\<forall>fo hs name v. fetchOptions a = Some fo \<and> headers fo = Some hs \<and>
            (name, v) \<in> set hs \<and>
            lower name \<noteq> ''accept-version'' \<and> lower name \<noteq> ''x-api-key'' \<longrightarrow>
            (\<exists>bytes. ByteString v = Inr bytes \<and>
               (lower name, normalize_value bytes) \<in> set (out_headers out)) \<and>
            (bare v \<longrightarrow> (lower name, v) \<in> set (out_headers out)))"
proof -
  from prepare_Inr [OF assms] obtain hs0 key where
    hs0: "new_Headers (case fetchOptions a of None \<Rightarrow> None | Some fo \<Rightarrow> headers fo) = Inr hs0"
    and key: "ByteString (apiKey this) = Inr key"
    and out: "out_headers out =
      set_pair (set_pair hs0 ''accept-version'' NOOKIPEDIA_API_VERSION)
        ''x-api-key'' (normalize_value key)"
    by auto
  have version: "Headers_get (out_headers out) ''Accept-Version'' = Some NOOKIPEDIA_API_VERSION"
    using Headers_get_set_other [of "''Accept-Version''" "''x-api-key''"]
      Headers_get_set_same [of _ "''Accept-Version''"]
    by (simp add: out lower_names)
  have sent: "Headers_get (out_headers out) ''X-API-KEY'' = Some (normalize_value key)"
    using Headers_get_set_same [of _ "''X-API-KEY''"] by (simp add: out lower_names)
  have verbatim: "Headers_get (out_headers out) ''X-API-KEY'' = Some (apiKey this)"
    if "bare (apiKey this)"
  proof -
    from that have "ByteString (apiKey this) = Inr (apiKey this)"
      by (simp add: bare_def ByteString_ascii)
    with key have "key = apiKey this" by simp
    with sent that show ?thesis by (simp add: normalize_value_bare)
  qed
  have others: "Headers_get (out_headers out) name = Headers_get hs0 name"
    if "lower name \<noteq> ''accept-version''" "lower name \<noteq> ''x-api-key''" for name
    using that by (simp add: out Headers_get_set_other)
  have kept: "(\<exists>bytes. ByteString v = Inr bytes \<and>
                 (lower name, normalize_value bytes) \<in> set (out_headers out)) \<and>
              (bare v \<longrightarrow> (lower name, v) \<in> set (out_headers out))"
    if "fetchOptions a = Some fo" "headers fo = Some hs" "(name, v) \<in> set hs"
      "lower name \<noteq> ''accept-version''" "lower name \<noteq> ''x-api-key''"
    for fo hs name v
  proof -
    from hs0 that(1,2) have "new_Headers (Some hs) = Inr hs0" by simp
    from new_Headers_holds [OF this that(3)] obtain bytes where
      b: "ByteString v = Inr bytes" and "(lower name, normalize_value bytes) \<in> set hs0"
      by blast
    then have m: "(lower name, normalize_value bytes) \<in> set (out_headers out)"
      using that(4,5) by (simp add: out set_pair_keeps)
    have "(lower name, v) \<in> set (out_headers out)" if "bare v"
    proof -
      from that have "ByteString v = Inr v"
        by (simp add: bare_def ByteString_ascii)
      with b have "bytes = v" by simp
      with m that show ?thesis by (simp add: normalize_value_bare)
    qed
    with b m show ?thesis by blast
  qed
  from version key sent verbatim hs0 others kept show ?thesis by blast
qed

theorem mandatory_headers_win_witness:
  "\<exists>out. prepare origin_URL (new_NookipediaApi ''apiKey'' None)
           (getAllBugs_args\<lparr>fetchOptions :=
              Some \<lparr>headers = Some [(''Test'', ''testValue''), (''x-api-key'', ''other'')],
                    other_options = ()\<rparr>\<rparr>) = Inr out \<and>
         Headers_get (out_headers out) ''Accept-Version'' = Some ''1.6.0'' \<and>
         Headers_get (out_headers out) ''X-API-KEY'' = Some ''apiKey'' \<and>
         Headers_get (out_headers out) ''Test'' = Some ''testValue'' \<and>
         (''test'', ''testValue'') \<in> set (out_headers out)"
proof -
  let ?hs = "[(''Test'', ''testValue''), (''x-api-key'', ''other'')]"
  let ?fo = "\<lparr>headers = Some ?hs, other_options = ()\<rparr>"
  let ?a = "getAllBugs_args\<lparr>fetchOptions := Some ?fo\<rparr>"
  let ?c = "new_NookipediaApi ''apiKey'' None"
  have hs0: "new_Headers (Some ?hs) = Inr [(''test'', ''testValue''), (''x-api-key'', ''other'')]"
    by (simp add: new_Headers_def Headers_append_def checked_header_def ascii_def
        normalize_value_def HTTP_whitespace_def header_name_def header_value_def tchar_def
        is_alpha_def tab_or_space_def lower_def lower_char_def)
  have k: "bare ''apiKey''" "list_all (\<lambda>c. (of_char c :: nat) \<notin> {0, 0x0A, 0x0D}) ''apiKey''"
    by (simp_all add: bare_def ascii_def HTTP_whitespace_def)
  have v: "bare ''testValue''"
    by (simp add: bare_def ascii_def HTTP_whitespace_def)
  have t: "lower ''Test'' = ''test''"
    by (simp add: lower_def lower_char_def)
  obtain out where p: "prepare origin_URL ?c ?a = Inr out"
    using prepare_reaches [of origin_URL ?a ?c _ _ "''apiKey''"] hs0 bare_key [OF k]
    by (simp add: origin_URL_def new_NookipediaApi_def getAllBugs_args_def)
  have g: "Headers_get [(''test'', ''testValue''), (''x-api-key'', ''other'')] ''Test'' =
      Some ''testValue''"
    by (simp add: Headers_get_def t)
  have f: "fetchOptions ?a = Some ?fo" "headers ?fo = Some ?hs" "apiKey ?c = ''apiKey''"
    by (simp_all add: new_NookipediaApi_def)
  note m = mandatory_headers_win [OF p]
  from m have c1: "Headers_get (out_headers out) ''Accept-Version'' = Some ''1.6.0''"
    by (simp add: NOOKIPEDIA_API_VERSION_def)
  from m have "bare (apiKey ?c) \<longrightarrow> Headers_get (out_headers out) ''X-API-KEY'' = Some (apiKey ?c)"
    by blast
  with k(1) f(3) have c2: "Headers_get (out_headers out) ''X-API-KEY'' = Some ''apiKey''"
    by simp
  from m obtain hs0 where
    "new_Headers (case fetchOptions ?a of None \<Rightarrow> None | Some fo \<Rightarrow> headers fo) = Inr hs0"
    and o: "\<forall>name. lower name \<noteq> ''accept-version'' \<and> lower name \<noteq> ''x-api-key'' \<longrightarrow>
               Headers_get (out_headers out) name = Headers_get hs0 name"
    by blast
  with hs0 have "hs0 = [(''test'', ''testValue''), (''x-api-key'', ''other'')]"
    by simp
  with o t g have c3: "Headers_get (out_headers out) ''Test'' = Some ''testValue''"
    by simp
  from m f(1,2) have "(''Test'', ''testValue'') \<in> set ?hs \<and>
      lower ''Test'' \<noteq> ''accept-version'' \<and> lower ''Test'' \<noteq> ''x-api-key'' \<longrightarrow>
      (bare ''testValue'' \<longrightarrow> (lower ''Test'', ''testValue'') \<in> set (out_headers out))"
    by blast
  with v t have c4: "(''test'', ''testValue'') \<in> set (out_headers out)"
    by simp
  from p c1 c2 c3 c4 show ?thesis by blast
qed

subsection \<open>C9: the client is only read\<close>

text \<open>
  Claim C9. A call leaves the client as it found it: the fields apiKey and apiUrl are
  the same after the call. The key is read from the field when the request is built, and
  nothing derived from it is kept: after the field is assigned a new key, the next call
  is the call of a client made with the new key, and when it reaches the transport its
  header X-API-KEY is the new key, as \<^verbatim>\<open>Headers\<close> holds it (without the white space
  at its ends; the new key itself when it has none and its characters are below U+0080).
\<close>

theorem client_unchanged_key_read_fresh:
  "snd (request pf this a) = this \<and>
   request pf' ((snd (request pf this a))\<lparr>apiKey := k\<rparr>) a' =
     request pf' \<lparr>apiKey = k, apiUrl = apiUrl this\<rparr> a' \<and>
   (prepare URL_ctor ((snd (request pf this a))\<lparr>apiKey := k\<rparr>) a' = Inr out \<longrightarrow>
      (\<exists>key. ByteString k = Inr key \<and>
         Headers_get (out_headers out) ''X-API-KEY'' = Some (normalize_value key)) \<and>
      (bare k \<longrightarrow> Headers_get (out_headers out) ''X-API-KEY'' = Some k))"
proof -
  have frame: "snd (request pf this a) = this"
    by (simp add: request_def split: sum.splits)
  have fresh: "this\<lparr>apiKey := k\<rparr> = \<lparr>apiKey = k, apiUrl = apiUrl this\<rparr>"
    by simp
  have sent: "(\<exists>key. ByteString k = Inr key \<and>
         Headers_get (out_headers out) ''X-API-KEY'' = Some (normalize_value key)) \<and>
      (bare k \<longrightarrow> Headers_get (out_headers out) ''X-API-KEY'' = Some k)"
    if "prepare URL_ctor (this\<lparr>apiKey := k\<rparr>) a' = Inr out"
  proof -
    from prepare_Inr [OF that] obtain hs0 key where key: "ByteString k = Inr key"
      and out: "out_headers out =
        set_pair (set_pair hs0 ''accept-version'' NOOKIPEDIA_API_VERSION)
          ''x-api-key'' (normalize_value key)"
      by auto
    have g: "Headers_get (out_headers out) ''X-API-KEY'' = Some (normalize_value key)"
      using Headers_get_set_same [of _ "''X-API-KEY''"] by (simp add: out lower_names)
    have "Headers_get (out_headers out) ''X-API-KEY'' = Some k" if "bare k"
    proof -
      from that have "ByteString k = Inr k"
        by (simp add: bare_def ByteString_ascii)
      with key have "key = k" by simp
      with g that show ?thesis by (simp add: normalize_value_bare)
    qed
    with key g show ?thesis by blast
  qed
  have "request pf' (this\<lparr>apiKey := k\<rparr>) a' = request pf' \<lparr>apiKey = k, apiUrl = apiUrl this\<rparr> a'"
    by (simp only: fresh)
  with sent show ?thesis
    unfolding frame by blast
qed

theorem client_unchanged_key_read_fresh_witness:
  "snd (request (mock_fetch \<lparr>ok = True, status = Some 200, json_result = Inr (JObject [])\<rparr>)
         (new_NookipediaApi ''first'' None) getAllBugs_args) = new_NookipediaApi ''first'' None \<and>
   (\<exists>out. prepare origin_URL ((new_NookipediaApi ''first'' None)\<lparr>apiKey := ''second''\<rparr>)
            getAllBugs_args = Inr out \<and>
          Headers_get (out_headers out) ''X-API-KEY'' = Some ''second'')"
proof -
  let ?pf = "mock_fetch \<lparr>ok = True, status = Some 200, json_result = Inr (JObject [])\<rparr>"
  let ?c = "new_NookipediaApi ''first'' None"
  have k: "bare ''second''" "list_all (\<lambda>c. (of_char c :: nat) \<notin> {0, 0x0A, 0x0D}) ''second''"
    by (simp_all add: bare_def ascii_def HTTP_whitespace_def)
  obtain out where p: "prepare origin_URL (?c\<lparr>apiKey := ''second''\<rparr>) getAllBugs_args = Inr out"
    using prepare_reaches [of origin_URL getAllBugs_args "?c\<lparr>apiKey := ''second''\<rparr>" _ "[]"
        "''second''"] bare_key [OF k]
    by (simp add: origin_URL_def getAllBugs_args_def new_Headers_def)
  have "snd (request ?pf ?c getAllBugs_args) = ?c \<and>
        Headers_get (out_headers out) ''X-API-KEY'' = Some ''second''"
    using client_unchanged_key_read_fresh
      [of ?pf ?c getAllBugs_args ?pf "''second''" getAllBugs_args origin_URL out] p k(1)
    by simp
  with p show ?thesis by blast
qed

subsection \<open>C5: the query\<close>

lemma searchParams_update [simp]: "searchParams (update_params url ps) = ps"
  by (simp add: update_params_def)

lemma url_query_update:
  "url_query (update_params url ps) = (if serialize ps = [] then None else Some (serialize ps))"
  by (simp add: update_params_def)

lemma rest_update [simp]:
  "before_query (update_params url ps) = before_query url"
  "fragment (update_params url ps) = fragment url"
  by (simp_all add: update_params_def)

lemma append_loop_params:
  "searchParams (foldl (\<lambda>u val. searchParams_append u key (toString val)) url vals) =
   searchParams url @ map (\<lambda>val. (key, toString val)) vals"
  by (induction vals arbitrary: url) (simp_all add: searchParams_append_def)

lemma add_entry_Multiple_params:
  "searchParams (add_entry url (key, Multiple vals)) =
   searchParams url @ map (\<lambda>val. (key, toString val)) vals"
  by (simp add: append_loop_params)

lemma add_entry_Single_params:
  "searchParams (add_entry url (key, Single val)) = set_pair (searchParams url) key (toString val)"
  by (simp add: searchParams_set_def)

lemma in_step_update: "in_step (update_params url ps)"
  by (simp add: in_step_def update_params_def)

lemma in_step_append: "in_step (searchParams_append url name v)"
  by (simp add: searchParams_append_def in_step_update)

lemma in_step_set: "in_step (searchParams_set url name v)"
  by (simp add: searchParams_set_def in_step_update)

lemma in_step_append_loop:
  "in_step url \<Longrightarrow> in_step (foldl (\<lambda>u val. searchParams_append u key (toString val)) url vals)"
  by (induction vals arbitrary: url) (simp_all add: in_step_append)

lemma in_step_append_loop_nonempty:
  "vals \<noteq> [] \<Longrightarrow> in_step (foldl (\<lambda>u val. searchParams_append u key (toString val)) url vals)"
  by (cases vals) (simp_all add: in_step_append_loop in_step_append)

lemma in_step_add_entry: "in_step url \<Longrightarrow> in_step (add_entry url entry)"
proof (cases entry)
  case (Pair key qv)
  assume "in_step url"
  then show ?thesis
    using Pair by (cases qv) (simp_all add: in_step_append_loop in_step_set)
qed

lemma in_step_add_entries: "in_step url \<Longrightarrow> in_step (foldl add_entry url q)"
  by (induction q arbitrary: url) (simp_all add: in_step_add_entry)

lemma serialize_Nil_iff: "serialize ps = [] \<longleftrightarrow> ps = []"
  by (induction ps rule: serialize.induct) simp_all

lemma serialize_append:
  "xs \<noteq> [] \<Longrightarrow> ys \<noteq> [] \<Longrightarrow> serialize (xs @ ys) = serialize xs @ ''&'' @ serialize ys"
proof (induction xs rule: serialize.induct)
  case 1
  then show ?case by simp
next
  case (2 name v)
  then show ?case by (cases ys) auto
next
  case (3 name v p ps)
  then show ?case by simp
qed

lemma sublist_serialize:
  assumes "sublist blk ps"
  shows "sublist (serialize blk) (serialize ps)"
proof -
  from assms obtain a c where ps: "ps = a @ blk @ c"
    by (auto simp: sublist_def)
  show ?thesis
  proof (cases "blk = []")
    case True
    then show ?thesis by simp
  next
    case False
    show ?thesis
    proof (cases "a = []")
      case True
      show ?thesis
      proof (cases "c = []")
        case True
        with \<open>a = []\<close> ps show ?thesis by simp
      next
        case False
        with \<open>a = []\<close> \<open>blk \<noteq> []\<close> ps show ?thesis by (simp add: serialize_append)
      qed
    next
      case a: False
      show ?thesis
      proof (cases "c = []")
        case True
        with a \<open>blk \<noteq> []\<close> have "serialize ps = (serialize a @ ''&'') @ serialize blk"
          unfolding ps by (simp add: serialize_append)
        then show ?thesis by (metis sublist_append_leftI)
      next
        case False
        with a \<open>blk \<noteq> []\<close> have "serialize ps =
            (serialize a @ ''&'') @ serialize blk @ (''&'' @ serialize c)"
          unfolding ps by (simp add: serialize_append)
        then show ?thesis by (metis sublist_appendI)
      qed
    qed
  qed
qed

lemma set_existing_append:
  "set_existing n v (xs @ ys) =
     (if n \<in> fst ` set xs then set_existing n v xs @ filter (\<lambda>q. fst q \<noteq> n) ys
      else xs @ set_existing n v ys)"
  by (induction xs) auto

lemma set_existing_absent: "n \<notin> fst ` set xs \<Longrightarrow> set_existing n v xs = xs"
  by (induction xs) auto

lemma sublist_set_pair:
  assumes "sublist blk ps" and "\<forall>p \<in> set blk. fst p \<noteq> n"
  shows "sublist blk (set_pair ps n v)"
proof -
  from assms obtain a c where ps: "ps = a @ blk @ c"
    by (auto simp: sublist_def)
  have keep: "filter (\<lambda>q. fst q \<noteq> n) blk = blk"
    using assms(2) by (simp add: filter_id_conv)
  have absent: "n \<notin> fst ` set blk"
    using assms(2) by auto
  show ?thesis
  proof (cases "n \<in> fst ` set ps")
    case False
    then have "set_pair ps n v = a @ blk @ (c @ [(n, v)])"
      unfolding ps by (simp add: set_pair_def)
    then show ?thesis by (metis sublist_appendI)
  next
    case True
    show ?thesis
    proof (cases "n \<in> fst ` set a")
      case True
      then have "set_pair ps n v = set_existing n v a @ blk @ filter (\<lambda>q. fst q \<noteq> n) c"
        unfolding ps by (auto simp: set_pair_def set_existing_append keep)
      then show ?thesis by (metis sublist_appendI)
    next
      case False
      with True have "set_pair ps n v = a @ blk @ set_existing n v c"
        unfolding ps using absent
        by (simp add: set_pair_def set_existing_append set_existing_absent)
      then show ?thesis by (metis sublist_appendI)
    qed
  qed
qed

lemma sublist_add_entry:
  assumes "sublist blk (searchParams url)" and "\<forall>p \<in> set blk. fst p \<noteq> fst entry"
  shows "sublist blk (searchParams (add_entry url entry))"
proof (cases entry)
  case (Pair key qv)
  show ?thesis
  proof (cases qv)
    case (Single val)
    with Pair assms show ?thesis
      by (simp add: searchParams_set_def sublist_set_pair)
  next
    case (Multiple vals)
    from assms(1) obtain a c where "searchParams url = a @ blk @ c"
      by (auto simp: sublist_def)
    then have "searchParams (add_entry url entry) =
        a @ blk @ (c @ map (\<lambda>val. (key, toString val)) vals)"
      using Pair Multiple by (simp add: append_loop_params)
    then show ?thesis by (metis sublist_appendI)
  qed
qed

lemma sublist_add_entries:
  assumes "sublist blk (searchParams url)" and "\<forall>p \<in> set blk. fst p \<notin> fst ` set q"
  shows "sublist blk (searchParams (foldl add_entry url q))"
  using assms
proof (induction q arbitrary: url)
  case Nil
  then show ?case by simp
next
  case (Cons entry q)
  have "sublist blk (searchParams (add_entry url entry))"
    using Cons.prems by (intro sublist_add_entry) auto
  then show ?case using Cons by simp
qed

lemma multiple_entry_block:
  assumes "distinct (map fst q)" and "(key, Multiple vals) \<in> set q"
  shows "sublist (map (\<lambda>val. (key, toString val)) vals) (searchParams (foldl add_entry url q))"
proof -
  from assms(2) obtain q1 q2 where q: "q = q1 @ (key, Multiple vals) # q2"
    by (auto simp: in_set_conv_decomp)
  with assms(1) have later: "key \<notin> fst ` set q2" by auto
  let ?u = "add_entry (foldl add_entry url q1) (key, Multiple vals)"
  have "sublist (map (\<lambda>val. (key, toString val)) vals) (searchParams ?u)"
    by (simp add: append_loop_params)
  then have "sublist (map (\<lambda>val. (key, toString val)) vals) (searchParams (foldl add_entry ?u q2))"
    using later by (intro sublist_add_entries) auto
  then show ?thesis by (simp add: q)
qed

lemma multiple_entry_in_step:
  assumes "(key, Multiple vals) \<in> set q" and "vals \<noteq> []"
  shows "in_step (foldl add_entry url q)"
proof -
  from assms(1) obtain q1 q2 where q: "q = q1 @ (key, Multiple vals) # q2"
    by (auto simp: in_set_conv_decomp)
  have "in_step (add_entry (foldl add_entry url q1) (key, Multiple vals))"
    using assms(2) by (simp add: in_step_append_loop_nonempty)
  then show ?thesis by (simp add: q in_step_add_entries)
qed

lemma multiple_entry_query:
  assumes "distinct (map fst q)" and "(key, Multiple vals) \<in> set q" and "vals \<noteq> []"
  shows "\<exists>s. url_query (foldl add_entry url q) = Some s \<and>
             sublist (serialize (map (\<lambda>val. (key, toString val)) vals)) s"
proof -
  let ?u = "foldl add_entry url q"
  have blk: "sublist (map (\<lambda>val. (key, toString val)) vals) (searchParams ?u)"
    using assms(1,2) by (rule multiple_entry_block)
  with assms(3) have "searchParams ?u \<noteq> []" by auto
  then have "url_query ?u = Some (serialize (searchParams ?u))"
    using multiple_entry_in_step [OF assms(2,3), of url]
    by (simp add: in_step_def serialize_Nil_iff)
  with blk show ?thesis by (simp add: sublist_serialize)
qed

lemma in_set_sublist: "x \<in> set xs \<Longrightarrow> sublist [x] xs"
  by (auto simp: sublist_def in_set_conv_decomp)

lemma filter_add_entry_other:
  assumes "key \<noteq> fst entry"
  shows "filter (\<lambda>p. fst p = key) (searchParams (add_entry url entry)) =
         filter (\<lambda>p. fst p = key) (searchParams url)"
proof (cases entry)
  case (Pair k qv)
  with assms have "key \<noteq> k" by auto
  then show ?thesis
    using Pair
    by (cases qv) (auto simp: searchParams_set_def set_pair_other append_loop_params
        filter_empty_conv)
qed

lemma filter_add_entries_other:
  "key \<notin> fst ` set q \<Longrightarrow>
   filter (\<lambda>p. fst p = key) (searchParams (foldl add_entry url q)) =
   filter (\<lambda>p. fst p = key) (searchParams url)"
  by (induction q arbitrary: url) (simp_all add: filter_add_entry_other)

lemma single_entry_final:
  assumes "distinct (map fst q)" and "(key, Single val) \<in> set q"
  shows "filter (\<lambda>p. fst p = key) (searchParams (foldl add_entry url q)) = [(key, toString val)]"
    and "url_query (foldl add_entry url q) =
         Some (serialize (searchParams (foldl add_entry url q)))"
proof -
  from assms(2) obtain q1 q2 where q: "q = q1 @ (key, Single val) # q2"
    by (auto simp: in_set_conv_decomp)
  with assms(1) have later: "key \<notin> fst ` set q2" by auto
  let ?u = "add_entry (foldl add_entry url q1) (key, Single val)"
  have "filter (\<lambda>p. fst p = key) (searchParams ?u) = [(key, toString val)]"
    by (simp add: searchParams_set_def set_pair_same)
  with later show f: "filter (\<lambda>p. fst p = key) (searchParams (foldl add_entry url q)) =
      [(key, toString val)]"
    by (simp add: q filter_add_entries_other)
  have "in_step ?u"
    by (simp add: in_step_set)
  then have "in_step (foldl add_entry url q)"
    by (simp add: q in_step_add_entries)
  moreover from f have "searchParams (foldl add_entry url q) \<noteq> []"
    by auto
  ultimately show "url_query (foldl add_entry url q) =
      Some (serialize (searchParams (foldl add_entry url q)))"
    by (simp add: in_step_def serialize_Nil_iff)
qed

lemma prepare_out_url:
  assumes "prepare URL_ctor this a = Inr out"
  shows "\<exists>url0. URL_ctor (finalPath (path a) (replacePath a)) (apiUrl this) = Inr url0 \<and>
           out_url out = href (case query a of None \<Rightarrow> url0 | Some q \<Rightarrow> foldl add_entry url0 q)"
  using prepare_Inr [OF assms] by auto

lemma sublist_href: "url_query url = Some s \<Longrightarrow> sublist pat s \<Longrightarrow> sublist pat (href url)"
proof -
  assume q: "url_query url = Some s" and "sublist pat s"
  then obtain a c where "s = a @ pat @ c" by (auto simp: sublist_def)
  then have "href url = (before_query url @ CHR ''?'' # a) @ pat @
      (c @ (case fragment url of None \<Rightarrow> [] | Some f \<Rightarrow> CHR ''#'' # f))"
    using q by (simp add: href_def)
  then show ?thesis by (metis sublist_appendI)
qed

text \<open>
  The conversion of numbers on examples: an integer, the first integer in exponent form,
  a fraction, a small fraction and the values that are not finite.
\<close>

lemma Number_toString_examples:
  "Number_toString (Finite False 2 2) = ''20''"
  "Number_toString (Finite True 15 1) = ''-1.5''"
  "Number_toString (Finite False 1 22) = ''1e+21''"
  "Number_toString (Finite False 12 22) = ''1.2e+21''"
  "Number_toString (Finite False 5 0) = ''0.5''"
  "Number_toString (Finite False 1 (- 6)) = ''1e-7''"
  "Number_toString (Infinite True) = ''-Infinity''"
  by (simp_all add: Let_def)

lemma Number_toString_zeros:
  "Number_toString (Finite False 1 21) = ''100000000000000000000''"
  "Number_toString (Finite False 1 (- 5)) = ''0.000001''"
proof -
  have "replicate 20 (CHR ''0'') = ''00000000000000000000''"
    and "replicate 5 (CHR ''0'') = ''00000''"
    by (simp_all add: numeral_eq_Suc)
  then show "Number_toString (Finite False 1 21) = ''100000000000000000000''"
    and "Number_toString (Finite False 1 (- 5)) = ''0.000001''"
    by (simp_all add: Let_def)
qed

text \<open>
  Claim C5. An entry of the query whose value is a list adds one pair for each element,
  in the order of the list and all under the name of the entry, so that the encoded
  query of the outgoing URL holds them side by side (k=a&k=b for the elements a and b
  under k); an entry whose value is a scalar leaves exactly one pair of that name, with
  the new value, no pair of another name changes, and the query of the outgoing URL is
  written from the list and holds that pair; every scalar goes through toString before
  it is encoded, a string as it is and a number as the language prints it. The keys of
  the query object are distinct.
\<close>

theorem query_entries_encoded:
  "searchParams (add_entry url (key, Multiple vals)) =
     searchParams url @ map (\<lambda>val. (key, toString val)) vals \<and>
   filter (\<lambda>p. fst p = key) (searchParams (add_entry url (key, Single val))) =
     [(key, toString val)] \<and>
   (\<forall>name. name \<noteq> key \<longrightarrow>
      filter (\<lambda>p. fst p = name) (searchParams (add_entry url (key, Single val))) =
      filter (\<lambda>p. fst p = name) (searchParams url)) \<and>
   url_query (add_entry url (key, Single val)) =
     Some (serialize (searchParams (add_entry url (key, Single val)))) \<and>
   (distinct (map fst q) \<and> (key, Multiple vals) \<in> set q \<and> vals \<noteq> [] \<longrightarrow>
      (\<exists>s. url_query (foldl add_entry url q) = Some s \<and>
           sublist (serialize (map (\<lambda>val. (key, toString val)) vals)) s)) \<and>
   (prepare URL_ctor this a = Inr out \<and> query a = Some q \<and>
    distinct (map fst q) \<and> (key, Multiple vals) \<in> set q \<and> vals \<noteq> [] \<longrightarrow>
      sublist (serialize (map (\<lambda>val. (key, toString val)) vals)) (out_url out)) \<and>
   (prepare URL_ctor this a = Inr out \<and> query a = Some q \<and>
    distinct (map fst q) \<and> (key, Single val) \<in> set q \<longrightarrow>
      (\<exists>u. out_url out = href u \<and> url_query u = Some (serialize (searchParams u)) \<and>
           filter (\<lambda>p. fst p = key) (searchParams u) = [(key, toString val)]) \<and>
      sublist (encode key @ ''='' @ encode (toString val)) (out_url out)) \<and>
   toString (Str str) = str \<and> toString (Num x) = Number_toString x"
proof -
  have multiple: "sublist (serialize (map (\<lambda>val. (key, toString val)) vals)) (out_url out)"
    if p: "prepare URL_ctor this a = Inr out" and q: "query a = Some q"
      and d: "distinct (map fst q)" and m: "(key, Multiple vals) \<in> set q" and n: "vals \<noteq> []"
  proof -
    from prepare_out_url [OF p] q obtain url0 where
      "out_url out = href (foldl add_entry url0 q)" by auto
    moreover obtain s where "url_query (foldl add_entry url0 q) = Some s"
      "sublist (serialize (map (\<lambda>val. (key, toString val)) vals)) s"
      using multiple_entry_query [OF d m n] by blast
    ultimately show ?thesis by (simp add: sublist_href)
  qed
  have single: "(\<exists>u. out_url out = href u \<and> url_query u = Some (serialize (searchParams u)) \<and>
           filter (\<lambda>p. fst p = key) (searchParams u) = [(key, toString val)]) \<and>
      sublist (encode key @ ''='' @ encode (toString val)) (out_url out)"
    if p: "prepare URL_ctor this a = Inr out" and q: "query a = Some q"
      and d: "distinct (map fst q)" and m: "(key, Single val) \<in> set q"
  proof -
    from prepare_out_url [OF p] q obtain url0 where
      o: "out_url out = href (foldl add_entry url0 q)" by auto
    let ?u = "foldl add_entry url0 q"
    note f = single_entry_final [OF d m, of url0]
    from f(1) have "(key, toString val) \<in> set (filter (\<lambda>p. fst p = key) (searchParams ?u))"
      by simp
    then have "sublist [(key, toString val)] (searchParams ?u)"
      by (intro in_set_sublist) simp
    from sublist_serialize [OF this]
    have "sublist (encode key @ ''='' @ encode (toString val)) (serialize (searchParams ?u))"
      by simp
    with f(2) have "sublist (encode key @ ''='' @ encode (toString val)) (href ?u)"
      by (rule sublist_href)
    with o f show ?thesis by auto
  qed
  have step: "url_query (add_entry url (key, Single val)) =
      Some (serialize (searchParams (add_entry url (key, Single val))))"
    using single_entry_final(2) [of "[(key, Single val)]" key val url] by simp
  from multiple single step show ?thesis
    by (simp add: append_loop_params searchParams_set_def set_pair_same set_pair_other
        multiple_entry_query)
qed

theorem query_entries_encoded_witness:
  "\<exists>out. prepare origin_URL (new_NookipediaApi ''key'' None)
           \<lparr>path = ''/nh/recipes'', replacePath = None,
            query = Some [(''material'', Multiple [Str ''a'', Str ''b'']),
                          (''thumbsize'', Single (Num (Finite False 2 2)))],
            fetchOptions = None :: unit RequestInit option\<rparr> = Inr out \<and>
         out_url out =
           ''https://api.nookipedia.com/nh/recipes?material=a&material=b&thumbsize=20'' \<and>
         sublist ''material=a&material=b'' (out_url out) \<and>
         sublist ''thumbsize=20'' (out_url out)"
proof -
  let ?q = "[(''material'', Multiple [Str ''a'', Str ''b'']),
             (''thumbsize'', Single (Num (Finite False 2 2)))]"
  let ?a = "\<lparr>path = ''/nh/recipes'', replacePath = None, query = Some ?q,
             fetchOptions = None :: unit RequestInit option\<rparr>"
  let ?c = "new_NookipediaApi ''key'' None"
  have u: "origin_URL (finalPath (path ?a) (replacePath ?a)) (apiUrl ?c) =
      Inr \<lparr>before_query = ''https://api.nookipedia.com/nh/recipes'', url_query = None,
           searchParams = [], fragment = None\<rparr>"
    by (simp add: origin_URL_def finalPath_def new_NookipediaApi_def suffix_to_prefix)
  have h: "new_Headers (case fetchOptions ?a of None \<Rightarrow> None | Some fo \<Rightarrow> headers fo) = Inr []"
    by (simp add: new_Headers_def)
  have k: "ByteString (apiKey ?c) = Inr ''key''"
    using bare_key [OF key_is_bare] by (simp add: new_NookipediaApi_def)
  have v: "header_value (normalize_value ''key'')"
    using bare_key [OF key_is_bare] by simp
  note p = prepare_reaches [of origin_URL ?a ?c, OF u h k v]
  have o: "href (foldl add_entry
              \<lparr>before_query = ''https://api.nookipedia.com/nh/recipes'', url_query = None,
               searchParams = [], fragment = None\<rparr> ?q) =
      ''https://api.nookipedia.com/nh/recipes?material=a&material=b&thumbsize=20''"
    by (simp add: searchParams_append_def searchParams_set_def update_params_def set_pair_def
        href_def encode_def encode_byte_def unescaped_def Let_def)
  have e: "serialize (map (\<lambda>val. (''material'', toString val)) [Str ''a'', Str ''b'']) =
           ''material=a&material=b''"
    "encode ''thumbsize'' @ ''='' @ encode (toString (Num (Finite False 2 2))) =
           ''thumbsize=20''"
    by (simp_all add: encode_def encode_byte_def unescaped_def Let_def)
  let ?out = "\<lparr>out_url = ''https://api.nookipedia.com/nh/recipes?material=a&material=b&thumbsize=20'',
      out_headers = set_pair (set_pair [] ''accept-version'' NOOKIPEDIA_API_VERSION)
                      ''x-api-key'' (normalize_value ''key''),
      out_options = map_option other_options (fetchOptions ?a)\<rparr>"
  have p': "prepare origin_URL ?c ?a = Inr ?out"
    using p o by simp
  have "sublist ''material=a&material=b'' (out_url ?out) \<and>
        sublist ''thumbsize=20'' (out_url ?out)"
    using query_entries_encoded [where key = "''material''"
        and vals = "[Str ''a'', Str ''b'']" and q = ?q and URL_ctor = origin_URL
        and this = ?c and a = ?a and out = ?out]
      query_entries_encoded [where key = "''thumbsize''"
        and val = "Num (Finite False 2 2)" and q = ?q and URL_ctor = origin_URL
        and this = ?c and a = ?a and out = ?out]
      p'
    unfolding e by simp
  with p' show ?thesis by simp
qed

lemma scalar_entry_example:
  "add_entry \<lparr>before_query = ''https://api.nookipedia.com/nh/bugs'',
              url_query = Some ''a=1&b=2&a=3'',
              searchParams = [(''a'', ''1''), (''b'', ''2''), (''a'', ''3'')],
              fragment = None\<rparr> (''a'', Single (Num (Finite False 2 2))) =
   \<lparr>before_query = ''https://api.nookipedia.com/nh/bugs'',
    url_query = Some ''a=20&b=2'',
    searchParams = [(''a'', ''20''), (''b'', ''2'')],
    fragment = None\<rparr>"
  by (simp add: searchParams_set_def set_pair_def update_params_def encode_def encode_byte_def
      unescaped_def Let_def)

subsection \<open>C6: the path\<close>

lemma GetSubstitution_plain: "\<not> special_pattern v \<Longrightarrow> GetSubstitution m b a v = v"
  by (induction m b a v rule: GetSubstitution.induct) (auto split: if_splits)

lemma replace_plain:
  "\<not> special_pattern v \<Longrightarrow>
   replace s pat v = (case split_first pat s of None \<Rightarrow> s | Some (b, a) \<Rightarrow> b @ v @ a)"
  by (simp add: replace_def GetSubstitution_plain split: option.splits)

lemma split_first_Some: "split_first pat s = Some (b, a) \<Longrightarrow> s = b @ pat @ a"
proof (induction s arbitrary: b)
  case Nil
  then show ?case by (simp split: if_splits)
next
  case (Cons c s)
  show ?case
  proof (cases "prefix pat (c # s)")
    case True
    with Cons.prems show ?thesis by (auto simp: prefix_def)
  next
    case False
    with Cons.prems obtain b' where "split_first pat s = Some (b', a)" "b = c # b'"
      by (auto split: option.splits)
    with Cons.IH show ?thesis by simp
  qed
qed

lemma split_first_None: "split_first pat s = None \<Longrightarrow> \<not> sublist pat s"
proof (induction s)
  case Nil
  then show ?case by (simp split: if_splits)
next
  case (Cons c s)
  then show ?case
    by (auto simp: sublist_Cons_right split: if_splits option.splits)
qed

lemma split_first_earliest:
  "split_first pat s = Some (b, a) \<Longrightarrow> s = b' @ pat @ a' \<Longrightarrow> length b \<le> length b'"
proof (induction s arbitrary: b b')
  case Nil
  then show ?case by (simp split: if_splits)
next
  case (Cons c s)
  show ?case
  proof (cases "prefix pat (c # s)")
    case True
    with Cons.prems(1) have "b = []" by simp
    then show ?thesis by simp
  next
    case False
    with Cons.prems(1) obtain b0 where b0: "split_first pat s = Some (b0, a)" "b = c # b0"
      by (auto split: option.splits)
    from False Cons.prems(2) have "b' \<noteq> []" by (auto simp: prefix_def)
    then obtain b1 where b1: "b' = c # b1" "s = b1 @ pat @ a'"
      using Cons.prems(2) by (cases b') auto
    from Cons.IH [OF b0(1) b1(2)] b0(2) b1(1) show ?thesis by simp
  qed
qed

lemma split_first_skip:
  "CHR ''{'' \<notin> set s \<Longrightarrow>
   split_first (placeholder k) (s @ r) =
     map_option (\<lambda>(b, a). (s @ b, a)) (split_first (placeholder k) r)"
proof (induction s)
  case Nil
  then show ?case by (simp add: option.map_ident case_prod_eta)
next
  case (Cons c s)
  then have "\<not> prefix (placeholder k) (c # s @ r)"
    by (auto simp: placeholder_def)
  with Cons show ?case
    by (auto simp: option.map_comp comp_def case_prod_beta split: option.splits)
qed

lemma split_first_here: "split_first (placeholder k) (placeholder k @ r) = Some ([], r)"
  by (simp add: placeholder_def)

lemma prefix_names:
  "CHR ''}'' \<notin> set k \<Longrightarrow> CHR ''}'' \<notin> set n \<Longrightarrow>
   prefix (k @ CHR ''}'' # x) (n @ CHR ''}'' # y) \<Longrightarrow> k = n"
proof (induction k arbitrary: n)
  case Nil
  then show ?case by (cases n) auto
next
  case (Cons c k)
  then show ?case by (cases n) auto
qed

lemma split_first_other:
  assumes "brace_free k" and "brace_free n" and "k \<noteq> n"
  shows "split_first (placeholder k) (placeholder n @ r) =
           map_option (\<lambda>(b, a). (placeholder n @ b, a)) (split_first (placeholder k) r)"
proof -
  have eq: "placeholder n @ r = CHR ''{'' # (n @ ''}'') @ r" for r
    by (simp add: placeholder_def)
  have "\<not> prefix (placeholder k) (placeholder n @ r)"
    using assms prefix_names [of k n "[]" r] by (auto simp: placeholder_def brace_free_def)
  then have no: "\<not> prefix (placeholder k) (CHR ''{'' # (n @ ''}'') @ r)"
    unfolding eq .
  have "CHR ''{'' \<notin> set (n @ ''}'')"
    using assms(2) by (simp add: brace_free_def)
  note rest = split_first_skip [OF this, of k r]
  have "split_first (placeholder k) (CHR ''{'' # (n @ ''}'') @ r) =
      (case split_first (placeholder k) ((n @ ''}'') @ r) of
         None \<Rightarrow> None | Some (b, a) \<Rightarrow> Some (CHR ''{'' # b, a))"
    by (simp only: split_first.simps no if_False)
  also have "\<dots> = map_option (\<lambda>(b, a). (CHR ''{'' # (n @ ''}'') @ b, a))
      (split_first (placeholder k) r)"
    by (simp only: rest) (simp split: option.splits)
  finally show ?thesis by (simp only: eq)
qed

lemma split_first_render:
  assumes "list_all plain t" and "brace_free k"
  shows "(case split_first (placeholder k) (render t) of
            None \<Rightarrow> render t
          | Some (b, a) \<Rightarrow> b @ v @ a) = render (put k v t)"
  using assms(1)
proof (induction t)
  case Nil
  then show ?case by (simp add: placeholder_def)
next
  case (Cons p t)
  show ?case
  proof (cases p)
    case (Lit s)
    with Cons.prems have "CHR ''{'' \<notin> set s" by (simp add: brace_free_def)
    from split_first_skip [OF this, of k "render t"] Cons Lit show ?thesis
      by (auto split: option.splits)
  next
    case (Hole n)
    show ?thesis
    proof (cases "n = k")
      case True
      with Hole show ?thesis by (simp add: split_first_here)
    next
      case False
      with Hole Cons.prems assms(2) have
        "split_first (placeholder k) (render (p # t)) =
           map_option (\<lambda>(b, a). (placeholder n @ b, a)) (split_first (placeholder k) (render t))"
        by (simp add: split_first_other)
      with Cons Hole False show ?thesis
        by (auto split: option.splits)
    qed
  qed
qed

lemma replace_render:
  "list_all plain t \<Longrightarrow> brace_free k \<Longrightarrow> \<not> special_pattern v \<Longrightarrow>
   replace (render t) (placeholder k) v = render (put k v t)"
  by (simp add: replace_plain split_first_render)

lemma plain_put: "list_all plain t \<Longrightarrow> brace_free v \<Longrightarrow> list_all plain (put k v t)"
  by (induction k v t rule: put.induct) auto

lemma holes_put: "holes (put k v t) = remove1 k (holes t)"
  by (induction k v t rule: put.induct) auto

lemma fill_absent: "k \<notin> set (holes t) \<Longrightarrow> fill t (m(k \<mapsto> v)) = fill t m"
  by (induction t m rule: fill.induct) auto

lemma fill_put:
  "distinct (holes t) \<Longrightarrow> m k = None \<Longrightarrow> fill (put k v t) m = fill t (m(k \<mapsto> v))"
  by (induction k v t rule: put.induct) (auto simp: fill_absent)

lemma fill_empty: "fill t Map.empty = render t"
  by (induction t rule: render.induct) auto

lemma finalPath_render:
  assumes "well_formed t" and "distinct (map fst es)"
    and "\<forall>(k, v) \<in> set es. brace_free k \<and> brace_free v \<and> \<not> special_pattern v"
  shows "finalPath (render t) (Some es) = fill t (map_of es)"
  using assms
proof (induction es arbitrary: t)
  case Nil
  then show ?case by (simp add: finalPath_def fill_empty)
next
  case (Cons e es)
  obtain k v where e: "e = (k, v)" by (cases e)
  with Cons.prems have kv: "brace_free k" "brace_free v" "\<not> special_pattern v"
    and k: "k \<notin> fst ` set es" and wf: "list_all plain t" "distinct (holes t)"
    by (auto simp: well_formed_def)
  have wf': "well_formed (put k v t)"
    using wf kv by (simp add: well_formed_def plain_put holes_put)
  have "finalPath (render t) (Some (e # es)) = finalPath (render (put k v t)) (Some es)"
    using wf kv by (simp add: finalPath_def e replace_render)
  also have "\<dots> = fill (put k v t) (map_of es)"
    using Cons.prems wf' by (intro Cons.IH) auto
  also have "\<dots> = fill t ((map_of es)(k \<mapsto> v))"
    using wf k by (intro fill_put) (auto simp: map_of_eq_None_iff)
  finally show ?case by (simp add: e fun_upd_def)
qed

lemma fill_brace_free:
  assumes "list_all plain t" and "\<forall>n \<in> set (holes t). \<exists>v. m n = Some v \<and> brace_free v"
  shows "brace_free (fill t m)"
  using assms by (induction t m rule: fill.induct) (auto simp: brace_free_def)

lemma fill_contains:
  "n \<in> set (holes t) \<Longrightarrow> m n = Some v \<Longrightarrow> sublist v (fill t m)"
proof (induction t m rule: fill.induct)
  case (1 m)
  then show ?case by simp
next
  case (2 s t m)
  then have "sublist v (fill t m)" by simp
  then obtain a c where "fill t m = a @ v @ c" by (auto simp: sublist_def)
  then have "fill (Lit s # t) m = (s @ a) @ v @ c" by simp
  then show ?case by (metis sublist_appendI)
next
  case (3 n' t m)
  show ?case
  proof (cases "n' = n")
    case True
    with 3 show ?thesis by simp
  next
    case False
    with 3 have "sublist v (fill t m)" by simp
    then obtain a c where "fill t m = a @ v @ c" by (auto simp: sublist_def)
    then have "fill (Hole n' # t) m =
        ((case m n' of None \<Rightarrow> placeholder n' | Some v \<Rightarrow> v) @ a) @ v @ c" by simp
    then show ?thesis by (metis sublist_appendI)
  qed
qed

lemma holes_plain: "list_all plain t \<Longrightarrow> n \<in> set (holes t) \<Longrightarrow> brace_free n"
  by (induction t rule: holes.induct) auto

text \<open>
  Claim C6 says that every entry replaces the first occurrence of its placeholder by the
  value as it is, that a mapping which covers exactly the placeholders leaves no brace,
  and that for one placeholder and a value without braces the path holds the value and
  no brace. The replacement is a string, which \<^verbatim>\<open>replace\<close> expands: the value
  \<^verbatim>\<open>$&\<close> has no brace and puts the placeholder back. And a value is not escaped, so
  a value with a brace leaves a brace in the path.
\<close>

theorem placeholder_value_counterexample:
  "brace_free ''$&'' \<and>
   finalPath ''/nh/bugs/{bug}'' (Some [(''bug'', ''$&'')]) = ''/nh/bugs/{bug}'' \<and>
   \<not> brace_free (finalPath ''/nh/bugs/{bug}'' (Some [(''bug'', ''$&'')])) \<and>
   finalPath ''/nh/bugs/{bug}'' (Some [(''bug'', ''a{b'')]) = ''/nh/bugs/a{b''"
  by (simp add: finalPath_def replace_def placeholder_def brace_free_def)

text \<open>
  Claim C6, amended. When the value holds none of the patterns \<^verbatim>\<open>$$\<close>, \<^verbatim>\<open>$&\<close>,
  \<^verbatim>\<open>$`\<close>, \<^verbatim>\<open>$'\<close>, an entry replaces the first occurrence of its placeholder in
  the path by the value as it is, and leaves a path without that placeholder alone. For
  a well-formed template (no brace outside its placeholders, no placeholder twice) and a
  mapping with distinct names whose names and values have no brace and whose values
  hold none of those patterns, the resolved path is the template with the values in the
  place of their placeholders; when moreover the names of the mapping are exactly the
  placeholders of the template, the resolved path has no brace and holds every value as
  it is.
\<close>

theorem placeholders_replaced:
  "(\<not> special_pattern v \<and> split_first (placeholder k) s = Some (b, a) \<longrightarrow>
      replace s (placeholder k) v = b @ v @ a \<and> s = b @ placeholder k @ a \<and>
      (\<forall>b' a'. s = b' @ placeholder k @ a' \<longrightarrow> length b \<le> length b')) \<and>
   (split_first (placeholder k) s = None \<longrightarrow>
      replace s (placeholder k) v = s \<and> \<not> sublist (placeholder k) s) \<and>
   (well_formed t \<and> distinct (map fst es) \<and>
    (\<forall>(n, w) \<in> set es. brace_free n \<and> brace_free w \<and> \<not> special_pattern w) \<longrightarrow>
      finalPath (render t) (Some es) = fill t (map_of es)) \<and>
   (well_formed t \<and> distinct (map fst es) \<and> set (holes t) = fst ` set es \<and>
    (\<forall>(n, w) \<in> set es. brace_free w \<and> \<not> special_pattern w) \<longrightarrow>
      brace_free (finalPath (render t) (Some es)) \<and>
      (\<forall>(n, w) \<in> set es. sublist w (finalPath (render t) (Some es))))"
proof -
  have first: "replace s (placeholder k) v = b @ v @ a \<and> s = b @ placeholder k @ a \<and>
      (\<forall>b' a'. s = b' @ placeholder k @ a' \<longrightarrow> length b \<le> length b')"
    if "\<not> special_pattern v" "split_first (placeholder k) s = Some (b, a)"
    using that split_first_Some [OF that(2)] split_first_earliest [OF that(2)]
    by (simp add: replace_plain)
  have none: "replace s (placeholder k) v = s \<and> \<not> sublist (placeholder k) s"
    if "split_first (placeholder k) s = None"
    using that split_first_None [OF that] by (simp add: replace_def)
  have covered: "brace_free (finalPath (render t) (Some es)) \<and>
      (\<forall>(n, w) \<in> set es. sublist w (finalPath (render t) (Some es)))"
    if wf: "well_formed t" and d: "distinct (map fst es)"
      and h: "set (holes t) = fst ` set es"
      and vs: "\<forall>(n, w) \<in> set es. brace_free w \<and> \<not> special_pattern w"
  proof -
    have names: "brace_free n" if "(n, w) \<in> set es" for n w
    proof -
      from that have "n \<in> set (holes t)" using h by force
      with wf show ?thesis by (auto simp: well_formed_def intro: holes_plain)
    qed
    with vs have "\<forall>(n, w) \<in> set es. brace_free n \<and> brace_free w \<and> \<not> special_pattern w"
      by auto
    from finalPath_render [OF wf d this]
    have eq: "finalPath (render t) (Some es) = fill t (map_of es)" .
    have val: "map_of es n = Some w" if "(n, w) \<in> set es" for n w
      using that d by simp
    have "\<exists>w. map_of es n = Some w \<and> brace_free w" if "n \<in> set (holes t)" for n
    proof -
      from that h obtain w where "(n, w) \<in> set es" by force
      with val vs show ?thesis by auto
    qed
    with wf have "brace_free (fill t (map_of es))"
      by (intro fill_brace_free) (auto simp: well_formed_def)
    moreover have "sublist w (fill t (map_of es))" if "(n, w) \<in> set es" for n w
    proof -
      from that h have "n \<in> set (holes t)" by force
      then show ?thesis using val [OF that] by (rule fill_contains)
    qed
    ultimately show ?thesis by (auto simp: eq)
  qed
  show ?thesis
    using first none covered finalPath_render [of t es] by blast
qed

theorem placeholders_replaced_witness:
  "replace ''/nh/bugs/{bug}'' (placeholder ''bug'') ''coolBug'' = ''/nh/bugs/coolBug'' \<and>
   finalPath ''/nh/bugs/{bug}'' (Some [(''bug'', ''coolBug'')]) = ''/nh/bugs/coolBug'' \<and>
   brace_free (finalPath ''/nh/bugs/{bug}'' (Some [(''bug'', ''coolBug'')])) \<and>
   sublist ''coolBug'' (finalPath ''/nh/bugs/{bug}'' (Some [(''bug'', ''coolBug'')]))"
proof -
  let ?t = "[Lit ''/nh/bugs/'', Hole ''bug'']"
  let ?es = "[(''bug'', ''coolBug'')]"
  have r: "render ?t = ''/nh/bugs/{bug}''"
    by (simp add: placeholder_def)
  have v: "\<not> special_pattern ''coolBug''"
    by simp
  have f: "split_first (placeholder ''bug'') ''/nh/bugs/{bug}'' = Some (''/nh/bugs/'', [])"
    by (simp add: placeholder_def)
  have wf: "well_formed ?t"
    by (simp add: well_formed_def brace_free_def)
  have d: "distinct (map fst ?es)" and h: "set (holes ?t) = fst ` set ?es"
    by simp_all
  have vs: "\<forall>(n, w) \<in> set ?es. brace_free n \<and> brace_free w \<and> \<not> special_pattern w"
    by (simp add: brace_free_def)
  have vs': "\<forall>(n, w) \<in> set ?es. brace_free w \<and> \<not> special_pattern w"
    by (simp add: brace_free_def)
  have m: "fill ?t (map_of ?es) = ''/nh/bugs/coolBug''"
    by simp
  note inst = placeholders_replaced [of "''coolBug''" "''bug''" "''/nh/bugs/{bug}''"
      "''/nh/bugs/''" "[]" ?t ?es]
  from inst v f have c1: "replace ''/nh/bugs/{bug}'' (placeholder ''bug'') ''coolBug'' =
      ''/nh/bugs/'' @ ''coolBug'' @ []"
    by blast
  from inst wf d vs have c2: "finalPath (render ?t) (Some ?es) = fill ?t (map_of ?es)"
    by blast
  from inst wf d h vs' have c3: "brace_free (finalPath (render ?t) (Some ?es)) \<and>
      (\<forall>(n, w) \<in> set ?es. sublist w (finalPath (render ?t) (Some ?es)))"
    by blast
  from c1 have "replace ''/nh/bugs/{bug}'' (placeholder ''bug'') ''coolBug'' =
      ''/nh/bugs/coolBug''"
    by simp
  moreover from c2 have "finalPath ''/nh/bugs/{bug}'' (Some ?es) = ''/nh/bugs/coolBug''"
    unfolding r m .
  moreover from c3 have "brace_free (finalPath ''/nh/bugs/{bug}'' (Some ?es))"
    and "sublist ''coolBug'' (finalPath ''/nh/bugs/{bug}'' (Some ?es))"
    unfolding r by simp_all
  ultimately show ?thesis by blast
qed

subsection \<open>C7: the trailing slash of the base URL\<close>

text \<open>
  The request reads \<^verbatim>\<open>this.apiUrl\<close> once, as the second argument of the URL
  constructor.
\<close>

lemma base_url_only_through_constructor:
  assumes "URL_ctor (finalPath (path a) (replacePath a)) (apiUrl c1) =
           URL_ctor (finalPath (path a) (replacePath a)) (apiUrl c2)"
    and "apiKey c1 = apiKey c2"
  shows "prepare URL_ctor c1 a = prepare URL_ctor c2 a"
  unfolding prepare_def assms ..

lemma dropWhile_none: "\<forall>x \<in> set xs. \<not> P x \<Longrightarrow> dropWhile P xs = xs"
  by (cases xs) auto

lemma preprocess_clean:
  assumes "\<forall>c \<in> set s. \<not> c0_or_space c"
  shows "preprocess s = s"
proof -
  have t: "\<forall>c \<in> set s. \<not> tab_or_newline c"
    using assms by (auto simp: tab_or_newline_def c0_or_space_def)
  have "dropWhile c0_or_space s = s"
    using assms by (rule dropWhile_none)
  moreover have "dropWhile c0_or_space (rev s) = rev s"
    using assms by (intro dropWhile_none) simp
  ultimately show ?thesis
    using t by (simp add: preprocess_def filter_id_conv)
qed

lemma preprocess_slash: "\<exists>t. preprocess (CHR ''/'' # s) = CHR ''/'' # t"
proof -
  have n: "\<not> c0_or_space (CHR ''/'')" "\<not> tab_or_newline (CHR ''/'')"
    by (simp_all add: c0_or_space_def tab_or_newline_def)
  have "dropWhile c0_or_space (rev s @ ''/'') = dropWhile c0_or_space (rev s) @ ''/''"
    using n(1) by (simp add: dropWhile_append)
  then show ?thesis
    using n by (simp add: preprocess_def)
qed

lemma scan_scheme_append:
  assumes "scan_scheme s = Some (scheme, rest)"
  shows "scan_scheme (s @ t) = Some (scheme, rest @ t)"
proof -
  from assms obtain c s' where s: "s = c # s'" and al: "is_alpha c"
    by (auto simp: scan_scheme_def split: list.splits if_splits)
  from assms s al have d: "dropWhile scheme_char s = CHR '':'' # rest"
    and sc: "scheme = lower (takeWhile scheme_char s)"
    by (auto simp: scan_scheme_def split: list.splits if_splits)
  from d obtain x where x: "x \<in> set s" "\<not> scheme_char x"
    by (metis dropWhile_eq_Nil_conv list.distinct(1))
  have "dropWhile scheme_char (s @ t) = CHR '':'' # rest @ t"
    and "takeWhile scheme_char (s @ t) = takeWhile scheme_char s"
    using d dropWhile_append1 [of x s scheme_char t] takeWhile_append1 [of x s scheme_char t] x
    by simp_all
  with s al sc show ?thesis
    by (simp add: scan_scheme_def)
qed

lemma takeWhile_snoc_stop: "\<not> P x \<Longrightarrow> takeWhile P (xs @ [x]) = takeWhile P xs"
  by (induction xs) auto

lemma authority_slash:
  "takeWhile (\<lambda>c. \<not> ends_authority c) (dropWhile slash (rest @ ''/'')) =
   takeWhile (\<lambda>c. \<not> ends_authority c) (dropWhile slash rest)"
proof (cases "\<forall>c \<in> set rest. slash c")
  case True
  then have "dropWhile slash rest = []" by simp
  moreover from True have "dropWhile slash (rest @ ''/'') = []"
    by (simp add: slash_def)
  ultimately show ?thesis by (simp only:)
next
  case False
  then have "dropWhile slash (rest @ ''/'') = dropWhile slash rest @ ''/''"
    by (simp add: dropWhile_append)
  then show ?thesis
    by (simp add: takeWhile_snoc_stop ends_authority_def slash_def)
qed

lemma parse_base_slash:
  assumes "web_base b"
  shows "parse_base pa (b @ ''/'') = parse_base pa b"
proof -
  from assms obtain scheme rest where s: "scan_scheme b = Some (scheme, rest)"
    and cl: "\<forall>c \<in> set b. \<not> c0_or_space c"
    by (auto simp: web_base_def split: option.splits)
  have p1: "preprocess b = b"
    using cl by (rule preprocess_clean)
  have "\<not> c0_or_space (CHR ''/'')"
    by (simp add: c0_or_space_def)
  with cl have p2: "preprocess (b @ ''/'') = b @ ''/''"
    by (intro preprocess_clean) auto
  have s2: "scan_scheme (b @ ''/'') = Some (scheme, rest @ ''/'')"
    using s by (rule scan_scheme_append)
  show ?thesis
    by (simp add: parse_base_def p1 p2 s s2 authority_slash)
qed

lemma web_base_covered: "web_base b \<Longrightarrow> parse_base pa b \<noteq> Uncovered"
  by (auto simp: web_base_def parse_base_def preprocess_clean split: option.splits)

lemma URL_standard_slash:
  assumes "web_base b"
  shows "URL_standard pa finish other (CHR ''/'' # s) (b @ ''/'') =
         URL_standard pa finish other (CHR ''/'' # s) b"
proof -
  obtain t where t: "preprocess (CHR ''/'' # s) = CHR ''/'' # t"
    using preprocess_slash by blast
  show ?thesis
    using web_base_covered [OF assms, of pa]
    by (simp add: URL_standard_def t parse_base_slash [OF assms] split: base.splits)
qed

lemma replace_keeps_slash:
  "\<exists>t. replace (CHR ''/'' # s) (placeholder k) v = CHR ''/'' # t"
proof -
  have "split_first (placeholder k) (''/'' @ s) =
      map_option (\<lambda>(b, a). (''/'' @ b, a)) (split_first (placeholder k) s)"
    by (rule split_first_skip) simp
  then show ?thesis
    by (auto simp: replace_def split: option.splits)
qed

lemma finalPath_keeps_slash: "\<exists>t. finalPath (CHR ''/'' # s) rp = CHR ''/'' # t"
proof -
  have "\<exists>t. foldl (\<lambda>fp (key, value). replace fp (placeholder key) value) (CHR ''/'' # s) es =
      CHR ''/'' # t" for es
  proof (induction es arbitrary: s)
    case Nil
    then show ?case by simp
  next
    case (Cons e es)
    obtain k v where e: "e = (k, v)" by (cases e)
    obtain t where "replace (CHR ''/'' # s) (placeholder k) v = CHR ''/'' # t"
      using replace_keeps_slash by blast
    with Cons [of t] e show ?case by simp
  qed
  then show ?thesis by (simp add: finalPath_def)
qed

text \<open>
  Claim C7 says that for every base URL the paths of the library resolve alike against
  the base and against the base with a slash appended. The URL constructor removes the
  spaces at the two ends of its input, so the base \<^verbatim>\<open>'https://api.x.com '\<close> is
  accepted, and the call goes to \<^verbatim>\<open>https://api.x.com/nh/bugs\<close>; with a slash
  appended the space is inside the host, where it is forbidden: the constructor throws
  a TypeError and the call sends nothing. The claim fails on this base.
\<close>

theorem trailing_space_base_counterexample:
  "(\<exists>out. prepare simple_URL \<lparr>apiKey = ''key'', apiUrl = ''https://api.x.com ''\<rparr>
            getAllBugs_args = Inr out \<and>
          out_url out = ''https://api.x.com/nh/bugs'') \<and>
   prepare simple_URL \<lparr>apiKey = ''key'', apiUrl = ''https://api.x.com '' @ ''/''\<rparr>
     getAllBugs_args = Inl TypeError"
proof -
  have u: "simple_URL ''/nh/bugs'' ''https://api.x.com '' =
      Inr \<lparr>before_query = ''https://api.x.com/nh/bugs'', url_query = None,
           searchParams = [], fragment = None\<rparr>"
    by (simp add: simple_URL_def URL_standard_def parse_base_def preprocess_def
        c0_or_space_def tab_or_newline_def scan_scheme_def is_alpha_def scheme_char_def
        lower_char_def lower_def web_scheme_def slash_def ends_authority_def
        simple_authority_def forbidden_host_code_point_def simple_finish_def)
  have v: "simple_URL ''/nh/bugs'' ''https://api.x.com /'' = Inl TypeError"
    by (simp add: simple_URL_def URL_standard_def parse_base_def preprocess_def
        c0_or_space_def tab_or_newline_def scan_scheme_def is_alpha_def scheme_char_def
        lower_char_def lower_def web_scheme_def slash_def ends_authority_def
        simple_authority_def forbidden_host_code_point_def)
  have "prepare simple_URL \<lparr>apiKey = ''key'', apiUrl = ''https://api.x.com ''\<rparr>
      getAllBugs_args =
    Inr \<lparr>out_url = ''https://api.x.com/nh/bugs'',
         out_headers = set_pair (set_pair [] ''accept-version'' NOOKIPEDIA_API_VERSION)
                         ''x-api-key'' (normalize_value ''key''),
         out_options = None\<rparr>"
    using prepare_reaches [of simple_URL getAllBugs_args
        "\<lparr>apiKey = ''key'', apiUrl = ''https://api.x.com ''\<rparr>" _ "[]" "''key''"]
      bare_key [OF key_is_bare] u
    by (simp add: getAllBugs_args_def finalPath_def new_Headers_def href_def)
  moreover have "prepare simple_URL \<lparr>apiKey = ''key'', apiUrl = ''https://api.x.com '' @ ''/''\<rparr>
      getAllBugs_args = Inl TypeError"
    using v by (simp add: prepare_def getAllBugs_args_def finalPath_def)
  ultimately show ?thesis by simp
qed

text \<open>
  Claim C7, amended. For every base URL \<open>b\<close> of the web (scheme \<^verbatim>\<open>ftp\<close>,
  \<^verbatim>\<open>http\<close>, \<^verbatim>\<open>https\<close>, \<^verbatim>\<open>ws\<close> or \<^verbatim>\<open>wss\<close>, no space and no control character) and
  every path of the library (each begins with a slash), the URL constructor resolves the
  path alike against \<open>b\<close> and against \<open>b\<close> with a slash appended, so two clients
  with the same key and these two base URLs send the same request, with the same URL,
  for the same call, and the calls end alike. The clients of 'https://api.x.com' and
  'https://api.x.com/' are such a pair. The URL constructor is the parser of the URL
  standard, as \<open>URL_standard\<close> has it.
\<close>

theorem trailing_slash_same_request:
  assumes "web_base b" and "path a = CHR ''/'' # s"
    and "new_URL pf = URL_standard pa finish other"
  shows "new_URL pf (finalPath (path a) (replacePath a)) (b @ ''/'') =
           new_URL pf (finalPath (path a) (replacePath a)) b \<and>
         prepare (new_URL pf) \<lparr>apiKey = k, apiUrl = b @ ''/''\<rparr> a =
           prepare (new_URL pf) \<lparr>apiKey = k, apiUrl = b\<rparr> a \<and>
         fst (request pf \<lparr>apiKey = k, apiUrl = b @ ''/''\<rparr> a) =
           fst (request pf \<lparr>apiKey = k, apiUrl = b\<rparr> a)"
proof -
  obtain t where t: "finalPath (path a) (replacePath a) = CHR ''/'' # t"
    using finalPath_keeps_slash [of s "replacePath a"] assms(2) by auto
  have u: "new_URL pf (finalPath (path a) (replacePath a)) (b @ ''/'') =
        new_URL pf (finalPath (path a) (replacePath a)) b"
    unfolding t assms(3) using assms(1) by (rule URL_standard_slash)
  then have p: "prepare (new_URL pf) \<lparr>apiKey = k, apiUrl = b @ ''/''\<rparr> a =
      prepare (new_URL pf) \<lparr>apiKey = k, apiUrl = b\<rparr> a"
    by (intro base_url_only_through_constructor) simp_all
  with u show ?thesis
    by (simp add: request_def split: sum.splits)
qed

theorem trailing_slash_same_request_witness:
  "web_base ''https://api.x.com'' \<and>
   prepare simple_URL \<lparr>apiKey = ''key'', apiUrl = ''https://api.x.com/''\<rparr> getAllBugs_args =
     prepare simple_URL \<lparr>apiKey = ''key'', apiUrl = ''https://api.x.com''\<rparr> getAllBugs_args \<and>
   (\<exists>out. prepare simple_URL \<lparr>apiKey = ''key'', apiUrl = ''https://api.x.com''\<rparr>
            getAllBugs_args = Inr out \<and>
          out_url out = ''https://api.x.com/nh/bugs'')"
proof -
  let ?pf = "\<lparr>new_URL = simple_URL,
              fetch = (\<lambda>out :: unit outgoing. Inl (HostException ''offline''))\<rparr>"
  have w: "web_base ''https://api.x.com''"
    by (simp add: web_base_def c0_or_space_def scan_scheme_def is_alpha_def scheme_char_def
        lower_char_def lower_def web_scheme_def)
  have a: "path getAllBugs_args = CHR ''/'' # ''nh/bugs''"
    by (simp add: getAllBugs_args_def)
  have n: "new_URL ?pf = URL_standard simple_authority simple_finish (\<lambda>p b. Inl TypeError)"
    by (simp add: simple_URL_def)
  have u: "simple_URL ''/nh/bugs'' ''https://api.x.com'' =
      Inr \<lparr>before_query = ''https://api.x.com/nh/bugs'', url_query = None,
           searchParams = [], fragment = None\<rparr>"
    by (simp add: simple_URL_def URL_standard_def parse_base_def preprocess_def
        c0_or_space_def tab_or_newline_def scan_scheme_def is_alpha_def scheme_char_def
        lower_char_def lower_def web_scheme_def slash_def ends_authority_def
        simple_authority_def forbidden_host_code_point_def simple_finish_def)
  have "prepare simple_URL \<lparr>apiKey = ''key'', apiUrl = ''https://api.x.com''\<rparr>
      getAllBugs_args =
    Inr \<lparr>out_url = ''https://api.x.com/nh/bugs'',
         out_headers = set_pair (set_pair [] ''accept-version'' NOOKIPEDIA_API_VERSION)
                         ''x-api-key'' (normalize_value ''key''),
         out_options = None\<rparr>"
    using prepare_reaches [of simple_URL getAllBugs_args
        "\<lparr>apiKey = ''key'', apiUrl = ''https://api.x.com''\<rparr>" _ "[]" "''key''"]
      bare_key [OF key_is_bare] u
    by (simp add: getAllBugs_args_def finalPath_def new_Headers_def href_def)
  then have o: "\<exists>out. prepare simple_URL \<lparr>apiKey = ''key'', apiUrl = ''https://api.x.com''\<rparr>
      getAllBugs_args = Inr out \<and> out_url out = ''https://api.x.com/nh/bugs''"
    by simp
  from trailing_slash_same_request [OF w a n, of "''key''"]
  have "prepare simple_URL \<lparr>apiKey = ''key'', apiUrl = ''https://api.x.com/''\<rparr>
      getAllBugs_args =
    prepare simple_URL \<lparr>apiKey = ''key'', apiUrl = ''https://api.x.com''\<rparr> getAllBugs_args"
    by simp
  with w o show ?thesis by blast
qed

end
